theory Spec2Isabelle
  imports Complex_Main "HOL-Library.Log_Nat"
begin

section \<open>JavaScript values as the client code reads them\<close>

text \<open>
  The client (React, under \<^verbatim>\<open>src/client\<close> and \<^verbatim>\<open>src/unnamed\<close>) reads response bodies
  that are arbitrary JSON, so a body is a value of \<open>js\<close>. An object is the association
  list of its own data properties.
\<close>

datatype js =
    JUndefined
  | JNull
  | JBool bool
  | JNum rat
  | JStr string
  | JArr "js list"
  | JObj "(string \<times> js) list"

text \<open>
  What a rejected promise or a \<^verbatim>\<open>throw\<close> carries. An \<open>AxiosError\<close> holds
  \<^verbatim>\<open>error.response\<close> when the server answered: its status and its body.
\<close>

datatype js_error =
    TypeError
  | AxiosError "(nat \<times> js) option"
  | Error string

text \<open>Truthiness, as \<^verbatim>\<open>||\<close>, \<^verbatim>\<open>!\<close> and \<^verbatim>\<open>if\<close> use it.\<close>

fun truthy :: "js \<Rightarrow> bool" where
  "truthy JUndefined = False"
| "truthy JNull = False"
| "truthy (JBool b) = b"
| "truthy (JNum n) = (n \<noteq> 0)"
| "truthy (JStr s) = (s \<noteq> [])"
| "truthy (JArr xs) = True"
| "truthy (JObj kvs) = True"

text \<open>\<^verbatim>\<open>a || b\<close> and \<^verbatim>\<open>a ?? b\<close>.\<close>

definition js_or :: "js \<Rightarrow> js \<Rightarrow> js" where
  "js_or a b = (if truthy a then a else b)"

definition nullish :: "js \<Rightarrow> bool" where
  "nullish a = (a = JUndefined \<or> a = JNull)"

definition js_coalesce :: "js \<Rightarrow> js \<Rightarrow> js" where
  "js_coalesce a b = (if nullish a then b else a)"

text \<open>
  \<^verbatim>\<open>v.k\<close> for the data property names the client reads (\<^verbatim>\<open>items\<close>,
  \<^verbatim>\<open>agents\<close>, \<^verbatim>\<open>status\<close>, \<^verbatim>\<open>mock_mode\<close>, ...; none of them is a built-in
  property of an array or of a primitive): it throws a TypeError on \<^verbatim>\<open>undefined\<close> and
  \<^verbatim>\<open>null\<close>, and is \<^verbatim>\<open>undefined\<close> where the property is missing.
  \<^verbatim>\<open>v?.k\<close> is \<^verbatim>\<open>undefined\<close> instead of throwing.
\<close>

fun member :: "js \<Rightarrow> string \<Rightarrow> js_error + js" where
  "member JUndefined k = Inl TypeError"
| "member JNull k = Inl TypeError"
| "member (JObj kvs) k = Inr (case map_of kvs k of None \<Rightarrow> JUndefined | Some v \<Rightarrow> v)"
| "member v k = Inr JUndefined"

definition opt_member :: "js \<Rightarrow> string \<Rightarrow> js" where
  "opt_member v k = (case member v k of Inl e \<Rightarrow> JUndefined | Inr x \<Rightarrow> x)"

fun isArray :: "js \<Rightarrow> bool" where
  "isArray (JArr xs) = True"
| "isArray v = False"

text \<open>\<^verbatim>\<open>error.response?.data?.detail\<close>\<close>

fun error_detail :: "js_error \<Rightarrow> js" where
  "error_detail (AxiosError (Some (st, body))) = opt_member body ''detail''"
| "error_detail e = JUndefined"

section \<open>Effects of the components\<close>

text \<open>
  Every call a component makes to the outside (a request through \<^verbatim>\<open>axiosInstance\<close>, a
  timer, the console, a toast) is appended to a trace, in program order. The two state
  setters of \<^verbatim>\<open>Playground\<close> that the run path is about are traced as well.
\<close>

datatype event =
    HttpGet string
  | HttpGetById string js
  | HttpPost string js
  | SetTimeout nat
  | ConsoleError string js_error
  | ConsoleLog string
  | ToastError js
  | ToastSuccess string
  | SetResult js
  | SetIsRunning bool
  | ToastCustom string
  | Navigate string

section \<open>The agent lists: \<^verbatim>\<open>Agents\<close> and \<^verbatim>\<open>DisplayAgents\<close>\<close>

record agent_list =
  al_agents :: js
  al_loading :: bool
  al_trace :: "event list"

text \<open>\<^verbatim>\<open>useState([])\<close>, \<^verbatim>\<open>useState(true)\<close>\<close>

definition agent_list_init :: agent_list where
  "agent_list_init = \<lparr>al_agents = JArr [], al_loading = True, al_trace = []\<rparr>"

text \<open>
  \<^verbatim>\<open>Agents.fetchAgents\<close> (src/unnamed/part_000). The argument is the outcome of
  \<^verbatim>\<open>axiosInstance.get('/agents')\<close>: the rejection, or \<^verbatim>\<open>response.data\<close>.
\<close>

definition Agents_fetchAgents :: "js_error + js \<Rightarrow> agent_list \<Rightarrow> agent_list" where
  "Agents_fetchAgents response s =
    (let s1 = s\<lparr>al_trace := al_trace s @ [HttpGet ''/agents'']\<rparr>;
         s2 = (case response of
                 Inl e \<Rightarrow> s1\<lparr>al_trace := al_trace s1 @ [ToastError (JStr ''Failed to load agents'')]\<rparr>
               | Inr body \<Rightarrow>
                   (let fetched = js_coalesce (opt_member body ''items'') (JArr [])
                    in if isArray fetched then s1\<lparr>al_agents := fetched\<rparr>
                       else s1\<lparr>al_agents := JArr [],
                              al_trace := al_trace s1 @ [ToastError (JStr ''Invalid data format from server'')]\<rparr>))
     in s2\<lparr>al_loading := False\<rparr>)"

text \<open>\<^verbatim>\<open>DisplayAgents.fetchAgents\<close> (src/client/src/Pages/Submissions.jsx, second component)\<close>

definition DisplayAgents_fetchAgents :: "js_error + js \<Rightarrow> agent_list \<Rightarrow> agent_list" where
  "DisplayAgents_fetchAgents response s =
    (let s1 = s\<lparr>al_trace := al_trace s @ [HttpGet ''/agents'']\<rparr>;
         s2 = (case response of
                 Inl e \<Rightarrow> s1\<lparr>al_trace := al_trace s1 @ [ToastError (JStr ''Failed to load agents'')]\<rparr>
               | Inr body \<Rightarrow>
                   if isArray body then s1\<lparr>al_agents := body\<rparr>
                   else if truthy (opt_member body ''items'') \<and> isArray (opt_member body ''items'')
                     then s1\<lparr>al_agents := opt_member body ''items''\<rparr>
                   else s1\<lparr>al_agents := JArr []\<rparr>)
     in s2\<lparr>al_loading := False\<rparr>)"

section \<open>The \<^verbatim>\<open>Playground\<close> component\<close>

text \<open>Of the selected agent and task the component reads \<^verbatim>\<open>id\<close> and \<^verbatim>\<open>configType\<close>.\<close>

record agent =
  agent_id :: string
  configType :: string

record task =
  task_id :: string

record health =
  mockMode :: js
  supportedProviders :: js

record playground =
  agents :: js
  tasks :: js
  selectedAgent :: "agent option"
  selectedTask :: "task option"
  isRunning :: bool
  result :: js
  loading :: bool
  llmApiKey :: string
  showApiKeyModal :: bool
  healthStatus :: health
  sessionStorage :: "string \<rightharpoonup> string"
  localStorage :: "string \<rightharpoonup> string"
  trace :: "event list"

text \<open>The initial \<^verbatim>\<open>useState\<close> values, over the browser's two storages.\<close>

definition playground_init :: "(string \<rightharpoonup> string) \<Rightarrow> (string \<rightharpoonup> string) \<Rightarrow> playground" where
  "playground_init ss ls =
    \<lparr>agents = JArr [], tasks = JArr [], selectedAgent = None, selectedTask = None,
     isRunning = False, result = JNull, loading = True, llmApiKey = [],
     showApiKeyModal = False,
     healthStatus = \<lparr>mockMode = JBool True, supportedProviders = JArr []\<rparr>,
     sessionStorage = ss, localStorage = ls, trace = []\<rparr>"

definition emit :: "event list \<Rightarrow> playground \<Rightarrow> playground" where
  "emit es w = w\<lparr>trace := trace w @ es\<rparr>"

definition setResult :: "js \<Rightarrow> playground \<Rightarrow> playground" where
  "setResult v w = emit [SetResult v] (w\<lparr>result := v\<rparr>)"

definition setIsRunning :: "bool \<Rightarrow> playground \<Rightarrow> playground" where
  "setIsRunning b w = emit [SetIsRunning b] (w\<lparr>isRunning := b\<rparr>)"

text \<open>
  The \<^verbatim>\<open>try\<close> block of \<^verbatim>\<open>Playground.fetchData\<close> once the three requests have
  resolved, on the three bodies. \<open>Some e\<close> is the exception that left the block. The
  setters run in source order, so a throw while the health object is built comes after
  \<^verbatim>\<open>setAgents\<close> and \<^verbatim>\<open>setTasks\<close>.
\<close>

definition fetchData_try :: "js \<Rightarrow> js \<Rightarrow> js \<Rightarrow> playground \<Rightarrow> js_error option \<times> playground" where
  "fetchData_try agentsBody tasksBody healthBody w =
    (case member agentsBody ''agents'' of
       Inl e \<Rightarrow> (Some e, w)
     | Inr a \<Rightarrow>
        (let agentsData = js_or (js_or a (opt_member agentsBody ''items'')) (JArr [])
         in case member tasksBody ''items'' of
              Inl e \<Rightarrow> (Some e, w)
            | Inr t \<Rightarrow>
               (let tasksData = js_or (js_or t tasksBody) (JArr []);
                    w1 = w\<lparr>agents := agentsData, tasks := tasksData\<rparr>
                in case member healthBody ''mock_mode'' of
                     Inl e \<Rightarrow> (Some e, w1)
                   | Inr m \<Rightarrow>
                       (None, w1\<lparr>healthStatus :=
                          \<lparr>mockMode = js_or m (JBool True),
                           supportedProviders =
                             js_or (opt_member healthBody ''supported_providers'') (JArr [])\<rparr>\<rparr>))))"

text \<open>
  \<^verbatim>\<open>Playground.fetchData\<close>. \<^verbatim>\<open>Promise.all\<close> issues the three requests and rejects
  when one of them does (the model reports the first rejected one in argument order;
  the caught error is only logged).
\<close>

definition fetchData ::
  "js_error + js \<Rightarrow> js_error + js \<Rightarrow> js_error + js \<Rightarrow> playground \<Rightarrow> playground" where
  "fetchData agentsResponse tasksResponse healthResponse w =
    (let w0 = emit [HttpGet ''/agents'', HttpGet ''/tasks'', HttpGet ''/playground/health''] w;
         r = (case agentsResponse of
                Inl e \<Rightarrow> (Some e, w0)
              | Inr ab \<Rightarrow>
                 (case tasksResponse of
                    Inl e \<Rightarrow> (Some e, w0)
                  | Inr tb \<Rightarrow>
                     (case healthResponse of
                        Inl e \<Rightarrow> (Some e, w0)
                      | Inr hb \<Rightarrow> fetchData_try ab tb hb w0)));
         w1 = (case fst r of
                 None \<Rightarrow> snd r
               | Some e \<Rightarrow>
                   emit [ConsoleError ''Error fetching data:'' e,
                         ToastError (JStr ''Failed to load agents or tasks'')] (snd r))
     in w1\<lparr>loading := False\<rparr>)"

text \<open>
  \<^verbatim>\<open>checkStatus\<close>, the closure inside \<^verbatim>\<open>Playground.pollSubmissionStatus\<close>.
  \<open>server k\<close> is the outcome of the \<open>k\<close>-th \<^verbatim>\<open>GET /submissions/<id>\<close> (counted from
  0; \<^verbatim>\<open>attempts\<close> is incremented once per answered poll, so it is that index): the
  rejection, or \<^verbatim>\<open>response.data\<close>. Each firing of the timer is one call.
\<close>

definition maxAttempts :: nat where
  "maxAttempts = 30"

function checkStatus :: "js \<Rightarrow> (nat \<Rightarrow> js_error + js) \<Rightarrow> nat \<Rightarrow> playground \<Rightarrow> playground" where
  "checkStatus submissionId server attempts w =
    (if attempts \<ge> maxAttempts then
       emit [ToastError (JStr ''Benchmark is taking longer than expected. Please check results page.'')]
         (setIsRunning False w)
     else
       (let w1 = emit [HttpGetById ''/submissions/'' submissionId] w
        in case server attempts of
             Inl e \<Rightarrow>
               setIsRunning False (emit [ConsoleError ''Error polling submission status:'' e] w1)
           | Inr submission \<Rightarrow>
              (case member submission ''status'' of
                 Inl e \<Rightarrow>
                   setIsRunning False (emit [ConsoleError ''Error polling submission status:'' e] w1)
               | Inr st \<Rightarrow>
                   if st = JStr ''completed'' \<or> st = JStr ''failed'' then
                     emit [ToastSuccess ''Benchmark evaluation completed!'']
                       (setIsRunning False (setResult submission w1))
                   else
                     checkStatus submissionId server (attempts + 1) (emit [SetTimeout 2000] w1))))"
  by pat_completeness auto
termination
  by (relation "measure (\<lambda>(i, s, a, w). maxAttempts - a)") auto

declare checkStatus.simps [simp del]

definition pollSubmissionStatus :: "js \<Rightarrow> (nat \<Rightarrow> js_error + js) \<Rightarrow> playground \<Rightarrow> playground" where
  "pollSubmissionStatus submissionId server w =
     checkStatus submissionId server 0 (emit [SetTimeout 2000] w)"

text \<open>The body of the run request.\<close>

definition benchmarkData :: "agent \<Rightarrow> task \<Rightarrow> string \<Rightarrow> js" where
  "benchmarkData a t key =
     JObj [(''agent_id'', JStr (agent_id a)),
           (''task_id'', JStr (task_id t)),
           (''run_config'', JObj [(''llm_api_key'', JStr key)])]"

text \<open>The \<^verbatim>\<open>catch\<close> block of \<^verbatim>\<open>Playground.runBenchmark\<close>.\<close>

definition runBenchmark_catch :: "js_error \<Rightarrow> playground \<Rightarrow> playground" where
  "runBenchmark_catch e w =
     setIsRunning False
       (setResult (JObj [(''success'', JBool False),
                         (''error'', js_or (error_detail e) (JStr ''Execution failed'')),
                         (''timeTaken'', JNum 0)])
          (emit [ConsoleError ''Benchmark execution error:'' e,
                 ToastError (js_or (error_detail e) (JStr ''Failed to run benchmark''))] w))"

text \<open>
  \<^verbatim>\<open>Playground.runBenchmark\<close>. \<open>post\<close> is the outcome of
  \<^verbatim>\<open>axiosInstance.post('/submissions', benchmarkData)\<close>, \<open>server\<close> answers the polls.
\<close>

definition runBenchmark ::
  "js_error + js \<Rightarrow> (nat \<Rightarrow> js_error + js) \<Rightarrow> playground \<Rightarrow> playground" where
  "runBenchmark post server w =
    (case selectedAgent w of
       None \<Rightarrow> emit [ToastError (JStr ''Please select an agent first'')] w
     | Some a \<Rightarrow>
      (case selectedTask w of
         None \<Rightarrow> emit [ToastError (JStr ''Please select a task first'')] w
       | Some t \<Rightarrow>
          if configType a = ''real'' \<and> \<not> truthy (mockMode (healthStatus w)) \<and> llmApiKey w = []
          then w\<lparr>showApiKeyModal := True\<rparr>
          else
            (let w1 = setResult JNull (setIsRunning True w);
                 w2 = emit [HttpPost ''/submissions'' (benchmarkData a t (llmApiKey w))] w1
             in case post of
                  Inl e \<Rightarrow> runBenchmark_catch e w2
                | Inr body \<Rightarrow>
                   (let w3 = emit [ToastSuccess ''Benchmark evaluation initiated!''] (setResult body w2)
                    in case member body ''status'' of
                         Inl e \<Rightarrow> runBenchmark_catch e w3
                       | Inr st \<Rightarrow>
                           if st = JStr ''pending'' \<or> st = JStr ''processing''
                           then pollSubmissionStatus (opt_member body ''id'') server w3
                           else w3))))"


section \<open>\<^verbatim>\<open>useFetchSubmissions\<close>: polling the submissions of a task\<close>

text \<open>\<^verbatim>\<open>[].concat(v)\<close>: the elements of an array, or the value itself as the only element.\<close>

fun concat_js :: "js \<Rightarrow> js list" where
  "concat_js (JArr xs) = xs"
| "concat_js v = [v]"

text \<open>
  \<^verbatim>\<open>.every((sub) => sub.status === 'FAILED' || sub.status === 'COMPLETED')\<close>: it stops at
  the first element that fails the test, and reading \<^verbatim>\<open>status\<close> of a \<^verbatim>\<open>null\<close>
  element throws.
\<close>

fun allCompleted :: "js list \<Rightarrow> js_error + bool" where
  "allCompleted [] = Inr True"
| "allCompleted (sub # subs) =
     (case member sub ''status'' of
        Inl e \<Rightarrow> Inl e
      | Inr st \<Rightarrow>
          if st = JStr ''FAILED'' \<or> st = JStr ''COMPLETED'' then allCompleted subs else Inr False)"

definition maxLimit :: nat where
  "maxLimit = 5"

text \<open>
  \<^verbatim>\<open>pollSubmissions\<close>, the closure of the effect, with its two counters as arguments.
  \<open>cache k\<close> is what \<^verbatim>\<open>queryClient.getQueryData\<close> returns after the \<open>k\<close>-th refetch
  (counted from 0). The result is the exception that ended the chain, if one did, and
  the trace.
\<close>

function pollSubmissions ::
  "string \<Rightarrow> (nat \<Rightarrow> js) \<Rightarrow> nat \<Rightarrow> nat \<Rightarrow> event list \<Rightarrow> js_error option \<times> event list" where
  "pollSubmissions taskId cache attempt delay tr =
    (if attempt \<ge> maxLimit then (None, tr @ [ConsoleLog ''Max polling attempts reached.''])
     else
       (let tr1 = tr @ [HttpGet (''/submissions/task/'' @ taskId)];
            updatedSubmissions = js_or (cache attempt) (JArr [])
        in case allCompleted (concat_js updatedSubmissions) of
             Inl e \<Rightarrow> (Some e, tr1)
           | Inr done \<Rightarrow>
               if done then (None, tr1 @ [ConsoleLog ''All submissions completed. Stopping polling.''])
               else pollSubmissions taskId cache (attempt + 1) (delay * 2)
                      (tr1 @ [SetTimeout (delay * 2)])))"
  by pat_completeness auto
termination
  by (relation "measure (\<lambda>(t, c, a, d, tr). maxLimit - a)") auto

declare pollSubmissions.simps [simp del]

text \<open>The effect of \<^verbatim>\<open>useFetchSubmissions(taskId)\<close>: nothing without a task id.\<close>

definition useFetchSubmissions_effect :: "string \<Rightarrow> (nat \<Rightarrow> js) \<Rightarrow> js_error option \<times> event list" where
  "useFetchSubmissions_effect taskId cache =
     (if taskId = [] then (None, []) else pollSubmissions taskId cache 0 1000 [])"

section \<open>The health probe's callers\<close>

text \<open>\<^verbatim>\<open>CreateAgent\<close> (src/unnamed/part_003): the two pieces of state the probe sets.\<close>

record create_agent =
  ca_supportedProviders :: js
  ca_mockMode :: js
  ca_trace :: "event list"

text \<open>
  \<^verbatim>\<open>CreateAgent.checkPlaygroundHealth\<close>. The argument is the outcome of
  \<^verbatim>\<open>axiosInstance.get('/playground/health')\<close>. The first component of the result is the
  exception that leaves the function, if any.
\<close>

definition CreateAgent_catch :: "js_error \<Rightarrow> create_agent \<Rightarrow> create_agent" where
  "CreateAgent_catch e s =
     s\<lparr>ca_supportedProviders := JArr [], ca_mockMode := JBool True,
       ca_trace := ca_trace s @ [ConsoleError ''Error checking playground health:'' e]\<rparr>"

definition CreateAgent_checkPlaygroundHealth ::
  "js_error + js \<Rightarrow> create_agent \<Rightarrow> js_error option \<times> create_agent" where
  "CreateAgent_checkPlaygroundHealth response s =
    (let s1 = s\<lparr>ca_trace := ca_trace s @ [HttpGet ''/playground/health'']\<rparr>
     in case response of
          Inl e \<Rightarrow> (None, CreateAgent_catch e s1)
        | Inr body \<Rightarrow>
           (case member body ''supported_providers'' of
              Inl e \<Rightarrow> (None, CreateAgent_catch e s1)
            | Inr sp \<Rightarrow>
                (None, s1\<lparr>ca_supportedProviders := js_or sp (JArr []),
                          ca_mockMode := js_or (opt_member body ''mock_mode'') (JBool True)\<rparr>)))"

text \<open>
  \<^verbatim>\<open>PlaygroundHealthCheck\<close> (src/unnamed/part_004): its \<^verbatim>\<open>healthStatus\<close> object; a
  field the object literal leaves out is \<^verbatim>\<open>undefined\<close>.
\<close>

record phc_status =
  isLLMServiceReady :: js
  isEvaluationServiceReady :: js
  playgroundStatus :: js
  playgroundVersion :: js
  phc_mockMode :: js
  isCheckingStatus :: js
  phc_supportedProviders :: js
  supportedEnvironments :: js

record health_check =
  hc_status :: phc_status
  hc_trace :: "event list"

definition phc_initial :: phc_status where
  "phc_initial =
    \<lparr>isLLMServiceReady = JBool False, isEvaluationServiceReady = JBool False,
     playgroundStatus = JStr ''unknown'', playgroundVersion = JUndefined,
     phc_mockMode = JBool True, isCheckingStatus = JBool True,
     phc_supportedProviders = JUndefined, supportedEnvironments = JUndefined\<rparr>"

text \<open>The object the \<^verbatim>\<open>catch\<close> block sets.\<close>

definition phc_unhealthy :: phc_status where
  "phc_unhealthy =
    \<lparr>isLLMServiceReady = JBool False, isEvaluationServiceReady = JBool False,
     playgroundStatus = JStr ''error'', playgroundVersion = JUndefined,
     phc_mockMode = JBool True, isCheckingStatus = JBool False,
     phc_supportedProviders = JUndefined, supportedEnvironments = JUndefined\<rparr>"

definition PlaygroundHealthCheck_catch :: "js_error \<Rightarrow> health_check \<Rightarrow> health_check" where
  "PlaygroundHealthCheck_catch e s =
     s\<lparr>hc_status := phc_unhealthy,
       hc_trace := hc_trace s @ [ConsoleError ''Error checking playground health:'' e,
                                 ToastError (JStr ''Failed to check playground status'')]\<rparr>"

definition PlaygroundHealthCheck_checkPlaygroundHealth ::
  "js_error + js \<Rightarrow> health_check \<Rightarrow> js_error option \<times> health_check" where
  "PlaygroundHealthCheck_checkPlaygroundHealth response s =
    (let s1 = s\<lparr>hc_trace := hc_trace s @ [HttpGet ''/playground/health'']\<rparr>
     in case response of
          Inl e \<Rightarrow> (None, PlaygroundHealthCheck_catch e s1)
        | Inr body \<Rightarrow>
           (case member body ''llm_service'' of
              Inl e \<Rightarrow> (None, PlaygroundHealthCheck_catch e s1)
            | Inr llm \<Rightarrow>
               (let s2 = s1\<lparr>hc_status :=
                      \<lparr>isLLMServiceReady = js_or llm (JBool False),
                       isEvaluationServiceReady = js_or (opt_member body ''evaluation_service'') (JBool False),
                       playgroundStatus = js_or (opt_member body ''status'') (JStr ''unknown''),
                       playgroundVersion = js_or (opt_member body ''playground_version'') (JStr ''1.0.0''),
                       phc_mockMode = js_or (opt_member body ''mock_mode'') (JBool False),
                       isCheckingStatus = JBool False,
                       phc_supportedProviders = js_or (opt_member body ''supported_providers'') (JArr []),
                       supportedEnvironments = js_or (opt_member body ''supported_environments'') (JArr [])\<rparr>\<rparr>
                in if opt_member body ''status'' = JStr ''healthy''
                   then (None, s2\<lparr>hc_trace := hc_trace s2 @ [ToastSuccess ''Playground is ready!'']\<rparr>)
                   else if opt_member body ''status'' = JStr ''warning''
                   then (None, s2\<lparr>hc_trace := hc_trace s2 @ [ToastCustom ''Playground running with limitations'']\<rparr>)
                   else (None, s2))))"

section \<open>\<^verbatim>\<open>CreateAgent\<close>: submitting the form\<close>






section \<open>\<^verbatim>\<open>axiosInstance\<close>: the token-refresh interceptor\<close>

text \<open>
  The request config, as far as the interceptors read and write it: the
  \<^verbatim>\<open>Authorization\<close> header and the \<^verbatim>\<open>_retry\<close> flag.
\<close>

record request_config =
  url :: string
  authorization :: "string option"
  retry :: bool

text \<open>
  The browser around the instance: \<^verbatim>\<open>localStorage\<close>, \<^verbatim>\<open>window.location.href\<close>,
  the events given to \<^verbatim>\<open>window.dispatchEvent\<close>, the configs sent through the
  instance and the refresh tokens posted to \<^verbatim>\<open>/auth/refresh\<close>, each in order.
\<close>

record browser =
  storage :: "string \<rightharpoonup> string"
  href :: string
  dispatched :: "string list"
  sent :: "request_config list"
  refreshes :: "string list"

text \<open>
  The answer to \<^verbatim>\<open>axios.post('/api/v1/auth/refresh', ...)\<close>: a rejection, a response
  without a body (destructuring \<^verbatim>\<open>response.data\<close> then throws), or a body, given by the
  string that \<^verbatim>\<open>access_token\<close> renders to (\<^verbatim>\<open>undefined\<close> when the body has none).
\<close>

datatype refresh_reply =
    RefreshRejected js_error
  | RefreshNoBody
  | RefreshBody string

text \<open>\<^verbatim>\<open>error.response?.status\<close>\<close>

fun error_status :: "js_error \<Rightarrow> nat option" where
  "error_status (AxiosError (Some (st, body))) = Some st"
| "error_status e = None"

text \<open>The request interceptor: the stored access token, when there is one, as bearer.\<close>

definition attach_token :: "browser \<Rightarrow> request_config \<Rightarrow> request_config" where
  "attach_token b config =
     (case storage b ''access_token'' of
        None \<Rightarrow> config
      | Some token \<Rightarrow>
          if token = [] then config else config\<lparr>authorization := Some (''Bearer '' @ token)\<rparr>)"

text \<open>The \<^verbatim>\<open>catch (refreshError)\<close> block of the response interceptor.\<close>

definition refresh_failed :: "js_error \<Rightarrow> browser \<Rightarrow> (js_error + js) \<times> browser" where
  "refresh_failed refreshError b =
     (Inl refreshError,
      b\<lparr>storage := (storage b)(''access_token'' := None, ''refresh_token'' := None,
                               ''role'' := None, ''username'' := None),
        dispatched := dispatched b @ [''storage''],
        href := ''/login''\<rparr>)"

text \<open>
  One call \<^verbatim>\<open>axiosInstance(config)\<close>: the request interceptor, the transmission and
  the response interceptor. \<open>server n c\<close> is the outcome of sending config \<open>c\<close> as the
  \<open>n\<close>-th transmission (counted from 0): the rejection or the response. The retry is
  the recursive call; its own rejection is returned as it is (the promise is returned
  from the \<^verbatim>\<open>try\<close> block without \<^verbatim>\<open>await\<close>).
\<close>

function axiosInstance ::
  "(nat \<Rightarrow> request_config \<Rightarrow> js_error + js) \<Rightarrow> (string \<Rightarrow> refresh_reply) \<Rightarrow>
   request_config \<Rightarrow> browser \<Rightarrow> (js_error + js) \<times> browser" where
  "axiosInstance server refresh config b =
    (let config1 = attach_token b config;
         b1 = b\<lparr>sent := sent b @ [config1]\<rparr>
     in case server (length (sent b)) config1 of
          Inr response \<Rightarrow> (Inr response, b1)
        | Inl error \<Rightarrow>
            if error_status error = Some 401 \<and> \<not> retry config1 then
              (let originalRequest = config1\<lparr>retry := True\<rparr>
               in case storage b1 ''refresh_token'' of
                    None \<Rightarrow> refresh_failed (Error ''No refresh token available'') b1
                  | Some refreshToken \<Rightarrow>
                      if refreshToken = [] then
                        refresh_failed (Error ''No refresh token available'') b1
                      else
                        (let b2 = b1\<lparr>refreshes := refreshes b1 @ [refreshToken]\<rparr>
                         in case refresh refreshToken of
                              RefreshRejected e \<Rightarrow> refresh_failed e b2
                            | RefreshNoBody \<Rightarrow> refresh_failed TypeError b2
                            | RefreshBody access_token \<Rightarrow>
                                axiosInstance server refresh
                                  (originalRequest\<lparr>authorization := Some (''Bearer '' @ access_token)\<rparr>)
                                  (b2\<lparr>storage := (storage b2)(''access_token'' \<mapsto> access_token)\<rparr>)))
            else (Inl error, b1))"
  by pat_completeness auto
termination
  by (relation "measure (\<lambda>(s, r, c, b). if retry c then 0 else 1)") (auto simp: attach_token_def split: option.splits if_splits)

declare axiosInstance.simps [simp del]

section \<open>The Run Orchestrator\<close>

text \<open>
  Modelled from the spec: the Run Orchestrator's state machine (section 4.2 of the
  design, with the data of section 3). The orchestrator runs on the server, and no file
  of it is in the repository's sources; the model follows the design's words. Its
  collaborators are parameters: the provisioner, the Action Interface
  (\<open>observe\<close>, \<open>act\<close>), the Decision Engine (\<open>decide\<close>), the Completion Evaluator
  (\<open>evaluate\<close>), the cancellation signal and the clock. An error a collaborator
  returns is one that its bounded local retries did not cure.
\<close>

datatype run_status = completed | failed | timed_out | cancelled

datatype verdict = Continue | Success | Failure

datatype error_kind =
    ProvisionError
  | TransientIOError
  | AuthError
  | MalformedActionError
  | EnvironmentDestroyed

datatype action = Finish string | Operation string | Malformed

record step_record =
  index :: nat
  observation_summary :: string
  action :: action
  timestamp :: nat
  outcome :: bool

record run_outcome =
  status :: run_status
  matched :: bool
  steps_taken :: nat
  step_log :: "step_record list"
  error :: "error_kind option"
  last_verdict :: "verdict option"

record task_definition =
  step_budget :: nat
  time_budget :: nat
  success_criteria :: "string \<Rightarrow> bool"

record collaborators =
  provision :: "error_kind option"
  observe :: "nat \<Rightarrow> error_kind + string"
  decide :: "string \<Rightarrow> step_record list \<Rightarrow> error_kind + action"
  act :: "nat \<Rightarrow> action \<Rightarrow> error_kind option"
  evaluate :: "step_record list \<Rightarrow> verdict"
  cancel_signal :: "nat \<Rightarrow> bool"
  clock :: "nat \<Rightarrow> nat"

text \<open>
  Modelled from the spec: the Run Result Builder (section 4.6), \<open>steps_taken\<close> being
  the final step index. The orchestrator's files are not among the sources.
\<close>

definition build ::
  "run_status \<Rightarrow> bool \<Rightarrow> step_record list \<Rightarrow> error_kind option \<Rightarrow> verdict option \<Rightarrow> run_outcome" where
  "build st m steps e v =
     \<lparr>status = st, matched = m, steps_taken = length steps, step_log = steps, error = e,
      last_verdict = v\<rparr>"

text \<open>
  Modelled from the spec: the number of consecutive malformed actions that fails a run
  (section 4.2 suggests 3).
\<close>

definition malformed_limit :: nat where
  "malformed_limit = 3"

text \<open>
  Modelled from the spec: one iteration of the state \<open>Running\<close> (section 4.2), whose
  code is not among the sources: observe, decide, finish or act and append
  the record, evaluate. A success or failure verdict ends the run before the budgets and
  the cancellation signal are looked at. The result is the outcome that ends the run, or
  the state the loop is entered with again. \<open>bad\<close> counts the consecutive malformed
  actions.
\<close>

definition iteration ::
  "collaborators \<Rightarrow> task_definition \<Rightarrow> nat \<Rightarrow> step_record list \<Rightarrow>
   run_outcome + nat \<times> step_record list" where
  "iteration c t bad steps =
    (case observe c (length steps) of
       Inl e \<Rightarrow> Inl (build failed False steps (Some e) None)
     | Inr obs \<Rightarrow>
        (case decide c obs steps of
           Inl e \<Rightarrow> Inl (build failed False steps (Some e) None)
         | Inr (Finish claimed) \<Rightarrow>
             Inl (build completed (success_criteria t claimed) steps None None)
         | Inr a \<Rightarrow>
            (case (if a = Malformed then None else act c (length steps) a) of
               Some e \<Rightarrow> Inl (build failed False steps (Some e) None)
             | None \<Rightarrow>
                (let steps' = steps @ [\<lparr>index = length steps, observation_summary = obs,
                                        action = a, timestamp = clock c (length steps),
                                        outcome = (a \<noteq> Malformed)\<rparr>];
                     bad' = (if a = Malformed then bad + 1 else 0)
                 in if malformed_limit \<le> bad' then
                      Inl (build failed False steps' (Some MalformedActionError) None)
                    else
                      (case evaluate c steps' of
                         Success \<Rightarrow> Inl (build completed True steps' None (Some Success))
                       | Failure \<Rightarrow> Inl (build completed False steps' None (Some Failure))
                       | Continue \<Rightarrow>
                           if step_budget t \<le> length steps' \<or> time_budget t \<le> clock c (length steps')
                           then Inl (build timed_out False steps' None (Some Continue))
                           else if cancel_signal c (length steps')
                           then Inl (build cancelled False steps' None (Some Continue))
                           else Inr (bad', steps'))))))"

lemma iteration_appends:
  "iteration c t bad steps = Inr (bad', steps') \<Longrightarrow> length steps' = Suc (length steps)"
  by (auto simp: iteration_def Let_def
           split: sum.splits action.splits option.splits verdict.splits if_splits)

text \<open>
  Modelled from the spec: the state \<open>Running\<close> (section 4.2), iterations while the
  step budget is not used up.
\<close>

function running :: "collaborators \<Rightarrow> task_definition \<Rightarrow> nat \<Rightarrow> step_record list \<Rightarrow> run_outcome" where
  "running c t bad steps =
    (if step_budget t \<le> length steps then build timed_out False steps None None
     else
       (case iteration c t bad steps of
          Inl out \<Rightarrow> out
        | Inr (bad', steps') \<Rightarrow> running c t bad' steps'))"
  by pat_completeness auto
termination
  by (relation "measure (\<lambda>(c, t, bad, steps). step_budget t - length steps)")
     (auto dest: iteration_appends)

declare running.simps [simp del]

text \<open>
  Modelled from the spec: \<open>StartRun\<close> (sections 4.2 and 6), provisioning and then the
  loop, unless the run was cancelled before it started.
\<close>

definition start_run :: "collaborators \<Rightarrow> task_definition \<Rightarrow> run_outcome" where
  "start_run c t =
     (case provision c of
        Some e \<Rightarrow> build failed False [] (Some ProvisionError) None
      | None \<Rightarrow>
          if cancel_signal c 0 then build cancelled False [] None None
          else running c t 0 [])"

text \<open>
  A run for the examples: two steps allowed, every step an operation that succeeds, and
  an evaluator that reports success once two steps are on the log.
\<close>

definition two_step_task :: task_definition where
  "two_step_task = \<lparr>step_budget = 2, time_budget = 100, success_criteria = (\<lambda>claimed. True)\<rparr>"

definition two_step_run :: collaborators where
  "two_step_run =
     \<lparr>provision = None,
      observe = (\<lambda>i. Inr ''page''),
      decide = (\<lambda>obs steps. Inr (Operation ''click'')),
      act = (\<lambda>i a. None),
      evaluate = (\<lambda>steps. if length steps = 2 then Success else Continue),
      cancel_signal = (\<lambda>i. False),
      clock = (\<lambda>i. i)\<rparr>"

section \<open>JavaScript numbers and the accuracy renderers\<close>

text \<open>
  A JavaScript number is an IEEE 754 double. A finite double is a pair of a mantissa
  \<open>m\<close> and an exponent \<open>e\<close> and stands for \<open>m * 2 ^ e\<close>; the doubles are the pairs
  with \<open>\<bar>m\<bar> < 2 ^ 53\<close> and \<open>- 1074 \<le> e \<le> 971\<close>. Arithmetic computes the exact
  result and rounds it to the nearest double, ties to the even mantissa
  (\<open>round_double\<close>; results beyond the largest double, which JavaScript turns into
  \<^verbatim>\<open>Infinity\<close>, are not modelled: no product below leaves \<open>[0, 100]\<close>).
\<close>

type_synonym double = "int \<times> int"

definition val :: "double \<Rightarrow> rat" where
  "val d = of_int (fst d) * 2 powi snd d"

definition is_double :: "double \<Rightarrow> bool" where
  "is_double d = (\<bar>fst d\<bar> < 2 ^ 53 \<and> - 1074 \<le> snd d \<and> snd d \<le> 971)"

definition round_shift :: "int \<Rightarrow> nat \<Rightarrow> int" where
  "round_shift m k =
     (let q = m div 2 ^ k; r = m mod 2 ^ k
      in if 2 * r < 2 ^ k then q
         else if 2 ^ k < 2 * r then q + 1
         else if even q then q else q + 1)"

definition round_double :: "int \<Rightarrow> int \<Rightarrow> double" where
  "round_double m e =
     (let k = nat (max (bitlen \<bar>m\<bar> - 53) (- 1074 - e))
      in (round_shift m k, e + int k))"

definition js_times :: "double \<Rightarrow> double \<Rightarrow> double" where
  "js_times a b = round_double (fst a * fst b) (snd a + snd b)"

text \<open>
  \<^verbatim>\<open>accuracy * 100\<close>, the \<^verbatim>\<open>percentage\<close> of \<^verbatim>\<open>Leaderboard.getAccuracyBar\<close>
  (src/unnamed/part_002), which returns the colour and the width of the bar. The
  leaderboards print \<^verbatim>\<open>(entry.accuracy * 100).toFixed(1)\<close> and a percent sign next
  to it (\<open>accuracy_label\<close>).
\<close>

definition hundred :: double where
  "hundred = (25, 2)"

definition percentage :: "double \<Rightarrow> double" where
  "percentage accuracy = js_times accuracy hundred"

definition getAccuracyBar :: "double \<Rightarrow> string \<times> double" where
  "getAccuracyBar accuracy =
     (let barColor = (if 90 \<le> val (percentage accuracy) then ''bg-green-500''
                      else if 80 \<le> val (percentage accuracy) then ''bg-cyan-500''
                      else if 70 \<le> val (percentage accuracy) then ''bg-yellow-500''
                      else if 60 \<le> val (percentage accuracy) then ''bg-orange-500''
                      else ''bg-red-500'')
      in (barColor, percentage accuracy))"

text \<open>
  \<^verbatim>\<open>Number.prototype.toFixed(1)\<close>: the integer \<open>n\<close> for which \<open>n / 10\<close> is nearest
  to the number, the larger one of two, printed with one digit after the point.
\<close>

definition tenths :: "double \<Rightarrow> int" where
  "tenths x = \<lfloor>\<bar>val x\<bar> * 10 + 1 / 2\<rfloor>"

fun decimal :: "nat \<Rightarrow> string" where
  "decimal n =
     (if n < 10 then [''0123456789'' ! n] else decimal (n div 10) @ [''0123456789'' ! (n mod 10)])"

definition toFixed1 :: "double \<Rightarrow> string" where
  "toFixed1 x =
     (if val x < 0 then ''-'' else []) @ decimal (nat (tenths x) div 10) @ ''.''
       @ decimal (nat (tenths x) mod 10)"

definition accuracy_label :: "double \<Rightarrow> string" where
  "accuracy_label accuracy = toFixed1 (percentage accuracy) @ ''%''"

section \<open>Reading a trace\<close>

text \<open>
  The results handed to \<^verbatim>\<open>setResult\<close>, the delays given to \<^verbatim>\<open>setTimeout\<close>, the
  number of GET requests and the POST requests of a trace, each in order.
\<close>

primrec delivered :: "event list \<Rightarrow> js list" where
  "delivered [] = []"
| "delivered (e # es) = (case e of SetResult v \<Rightarrow> v # delivered es | _ \<Rightarrow> delivered es)"

primrec delays :: "event list \<Rightarrow> nat list" where
  "delays [] = []"
| "delays (e # es) = (case e of SetTimeout d \<Rightarrow> d # delays es | _ \<Rightarrow> delays es)"

primrec polls :: "event list \<Rightarrow> nat" where
  "polls [] = 0"
| "polls (e # es) =
     (case e of HttpGet u \<Rightarrow> Suc (polls es) | HttpGetById u i \<Rightarrow> Suc (polls es) | _ \<Rightarrow> polls es)"

primrec posts :: "event list \<Rightarrow> (string \<times> js) list" where
  "posts [] = []"
| "posts (e # es) = (case e of HttpPost u body \<Rightarrow> (u, body) # posts es | _ \<Rightarrow> posts es)"

text \<open>
  What \<^verbatim>\<open>console.error(label, error)\<close> hands to the console. The error with which
  \<^verbatim>\<open>axiosInstance\<close> rejects a request holds the config of that request (the response
  interceptor takes \<^verbatim>\<open>error.config\<close> and sends it again), so the body of the request
  can be read from the logged object, as \<^verbatim>\<open>error.config.data\<close>. \<open>js_error\<close> keeps of an
  error only what the handlers read of it, so the request it belongs to is taken from
  the trace: a handler logs the rejection of a request before it makes another one.
  \<open>last_body es cur\<close> is the body of the request made last (\<open>None\<close> before the first
  request and after a GET, which has no body), and \<open>logged_from es cur\<close> are the request
  bodies that reach the console in \<open>es\<close>. A \<^verbatim>\<open>TypeError\<close> or an \<^verbatim>\<open>Error\<close> thrown by the
  client's own code holds no config. After a 401 the interceptor can reject with the
  error of the refresh request instead; that error is counted as if it held the body
  too, so an empty \<open>logged_bodies\<close> means that no request body was logged.
\<close>

primrec last_body :: "event list \<Rightarrow> js option \<Rightarrow> js option" where
  "last_body [] cur = cur"
| "last_body (e # es) cur =
     last_body es (case e of HttpPost u body \<Rightarrow> Some body | HttpGet u \<Rightarrow> None
                   | HttpGetById u i \<Rightarrow> None | _ \<Rightarrow> cur)"

primrec logged_from :: "event list \<Rightarrow> js option \<Rightarrow> js list" where
  "logged_from [] cur = []"
| "logged_from (e # es) cur =
     (case e of
        HttpPost u body \<Rightarrow> logged_from es (Some body)
      | HttpGet u \<Rightarrow> logged_from es None
      | HttpGetById u i \<Rightarrow> logged_from es None
      | ConsoleError label err \<Rightarrow>
          (case (err, cur) of
             (AxiosError r, Some body) \<Rightarrow> body # logged_from es cur
           | _ \<Rightarrow> logged_from es cur)
      | _ \<Rightarrow> logged_from es cur)"

definition logged_bodies :: "event list \<Rightarrow> js list" where
  "logged_bodies es = logged_from es None"

text \<open>
  Back-off between polls, in the sense of the design (its section 7 retries with
  exponential back-off): each delay is longer than the one before it.
\<close>

fun growing :: "nat list \<Rightarrow> bool" where
  "growing (a # b # ds) = (a < b \<and> growing (b # ds))"
| "growing ds = True"

text \<open>
  What \<^verbatim>\<open>checkStatus\<close> tests in an answer: a status is terminal for it when it is
  \<^verbatim>\<open>'completed'\<close> or \<^verbatim>\<open>'failed'\<close>; an answer is pending when it carries a status that
  is not.
\<close>

definition terminal_status :: "js \<Rightarrow> bool" where
  "terminal_status st = (st = JStr ''completed'' \<or> st = JStr ''failed'')"

fun polled_status :: "js_error + js \<Rightarrow> js option" where
  "polled_status (Inl e) = None"
| "polled_status (Inr submission) =
     (case member submission ''status'' of Inl e \<Rightarrow> None | Inr st \<Rightarrow> Some st)"

definition pending :: "js_error + js \<Rightarrow> bool" where
  "pending r = (case polled_status r of None \<Rightarrow> False | Some st \<Rightarrow> \<not> terminal_status st)"

text \<open>
  The test of \<^verbatim>\<open>pollSubmissions\<close> on what the query cache holds:
  \<^verbatim>\<open>[].concat(getQueryData(...) || []).every(...)\<close>.
\<close>

definition cache_done :: "js \<Rightarrow> js_error + bool" where
  "cache_done c = allCompleted (concat_js (js_or c (JArr [])))"

text \<open>
  The error with which the \<^verbatim>\<open>try\<close> block of the response interceptor fails before
  it retries, if it does: no refresh token, a rejected refresh request, or a refresh
  response without a body.
\<close>

definition refresh_error :: "(string \<rightharpoonup> string) \<Rightarrow> (string \<Rightarrow> refresh_reply) \<Rightarrow> js_error option" where
  "refresh_error st refresh =
     (case st ''refresh_token'' of
        None \<Rightarrow> Some (Error ''No refresh token available'')
      | Some refreshToken \<Rightarrow>
          if refreshToken = [] then Some (Error ''No refresh token available'')
          else (case refresh refreshToken of
                  RefreshRejected e \<Rightarrow> Some e
                | RefreshNoBody \<Rightarrow> Some TypeError
                | RefreshBody access_token \<Rightarrow> None))"

text \<open>A browser with a session, for the examples.\<close>

definition logged_in :: browser where
  "logged_in =
     \<lparr>storage = [''access_token'' \<mapsto> ''old'', ''refresh_token'' \<mapsto> ''r1'',
                 ''role'' \<mapsto> ''user'', ''username'' \<mapsto> ''ann''],
      href = ''/playground'', dispatched = [], sent = [], refreshes = []\<rparr>"




section \<open>Properties of the agent lists\<close>

lemma Agents_fetchAgents_isArray:
  "isArray (al_agents s) \<Longrightarrow> isArray (al_agents (Agents_fetchAgents r s))"
  by (cases r) (auto simp: Agents_fetchAgents_def Let_def)

lemma DisplayAgents_fetchAgents_isArray:
  "isArray (al_agents s) \<Longrightarrow> isArray (al_agents (DisplayAgents_fetchAgents r s))"
  by (cases r) (auto simp: DisplayAgents_fetchAgents_def Let_def)

text \<open>
  Claim C10. The agents state is an array after every answer to \<^verbatim>\<open>GET /agents\<close> in
  \<^verbatim>\<open>Agents\<close> and \<^verbatim>\<open>DisplayAgents\<close> (the two lemmas above), which test
  \<^verbatim>\<open>Array.isArray\<close>. \<^verbatim>\<open>Playground.fetchData\<close> does not test it: on the body
  \<^verbatim>\<open>{ items: "abc" }\<close> it stores the string \<^verbatim>\<open>"abc"\<close> as the agents state, which is
  not an array.
\<close>

theorem Playground_fetchData_agents_not_array:
  "agents (fetchData (Inr (JObj [(''items'', JStr ''abc'')])) (Inr (JArr [])) (Inr (JObj []))
             (playground_init Map.empty Map.empty)) = JStr ''abc''
   \<and> \<not> isArray (agents (fetchData (Inr (JObj [(''items'', JStr ''abc'')])) (Inr (JArr []))
                        (Inr (JObj [])) (playground_init Map.empty Map.empty)))"
  by (simp add: fetchData_def fetchData_try_def playground_init_def emit_def js_or_def
        opt_member_def Let_def)

section \<open>Properties of the \<^verbatim>\<open>Playground\<close> run path\<close>

lemma fetchData_mockMode_truthy:
  "truthy (mockMode (healthStatus w)) \<Longrightarrow> truthy (mockMode (healthStatus (fetchData a t h w)))"
  by (auto simp: fetchData_def fetchData_try_def emit_def js_or_def Let_def
           split: sum.splits option.splits)

text \<open>
  Claim C1. The claim asks for a probe answer with \<^verbatim>\<open>mock_mode: false\<close> that makes the
  derived \<^verbatim>\<open>mockMode\<close> false, so that a real agent without a key is asked for one.
  \<^verbatim>\<open>fetchData\<close> computes \<^verbatim>\<open>mock_mode || true\<close>, which is never falsy (lemma
  \<open>fetchData_mockMode_truthy\<close>): on the answer
  \<^verbatim>\<open>{ status: "healthy", mock_mode: false, supported_providers: ["openai"] }\<close> the flag
  is \<^verbatim>\<open>true\<close>, and \<^verbatim>\<open>runBenchmark\<close> for a real agent with no key does not open the
  key dialog but posts the run with an empty \<^verbatim>\<open>llm_api_key\<close>.
\<close>

theorem Playground_mockMode_ignores_probe:
  "mockMode (healthStatus
      (fetchData (Inr (JArr [])) (Inr (JArr []))
         (Inr (JObj [(''status'', JStr ''healthy''), (''mock_mode'', JBool False),
                     (''supported_providers'', JArr [JStr ''openai''])]))
         (playground_init Map.empty Map.empty))) = JBool True
   \<and> showApiKeyModal
        (runBenchmark (Inr (JObj [(''id'', JStr ''s1''), (''status'', JStr ''completed'')]))
           (\<lambda>k. Inl (AxiosError None))
           ((fetchData (Inr (JArr [])) (Inr (JArr []))
              (Inr (JObj [(''status'', JStr ''healthy''), (''mock_mode'', JBool False),
                          (''supported_providers'', JArr [JStr ''openai''])]))
              (playground_init Map.empty Map.empty))
            \<lparr>selectedAgent := Some \<lparr>agent_id = ''a1'', configType = ''real''\<rparr>,
             selectedTask := Some \<lparr>task_id = ''t1''\<rparr>\<rparr>)) = False
   \<and> posts (trace
        (runBenchmark (Inr (JObj [(''id'', JStr ''s1''), (''status'', JStr ''completed'')]))
           (\<lambda>k. Inl (AxiosError None))
           ((fetchData (Inr (JArr [])) (Inr (JArr []))
              (Inr (JObj [(''status'', JStr ''healthy''), (''mock_mode'', JBool False),
                          (''supported_providers'', JArr [JStr ''openai''])]))
              (playground_init Map.empty Map.empty))
            \<lparr>selectedAgent := Some \<lparr>agent_id = ''a1'', configType = ''real''\<rparr>,
             selectedTask := Some \<lparr>task_id = ''t1''\<rparr>\<rparr>)))
       = [(''/submissions'',
           JObj [(''agent_id'', JStr ''a1''), (''task_id'', JStr ''t1''),
                 (''run_config'', JObj [(''llm_api_key'', JStr [])])])]"
  by (simp add: runBenchmark_def fetchData_def fetchData_try_def playground_init_def emit_def
        js_or_def opt_member_def Let_def setResult_def setIsRunning_def benchmarkData_def)

text \<open>
  Claim C8. \<^verbatim>\<open>runBenchmark\<close> sets \<^verbatim>\<open>isRunning\<close> and resets it in its \<^verbatim>\<open>catch\<close>
  block and on every exit of the polling loop, but not when the answer to
  \<^verbatim>\<open>POST /submissions\<close> already carries a status other than \<^verbatim>\<open>'pending'\<close> and
  \<^verbatim>\<open>'processing'\<close>: on the answer \<^verbatim>\<open>{ id: "s1", status: "completed" }\<close> no poll is
  scheduled and \<^verbatim>\<open>isRunning\<close> stays \<^verbatim>\<open>true\<close>.
\<close>

theorem runBenchmark_leaves_isRunning_set:
  "isRunning
     (runBenchmark (Inr (JObj [(''id'', JStr ''s1''), (''status'', JStr ''completed'')]))
        (\<lambda>k. Inl (AxiosError None))
        ((playground_init Map.empty Map.empty)
           \<lparr>selectedAgent := Some \<lparr>agent_id = ''a1'', configType = ''mock''\<rparr>,
            selectedTask := Some \<lparr>task_id = ''t1''\<rparr>\<rparr>)) = True
   \<and> delays (trace
     (runBenchmark (Inr (JObj [(''id'', JStr ''s1''), (''status'', JStr ''completed'')]))
        (\<lambda>k. Inl (AxiosError None))
        ((playground_init Map.empty Map.empty)
           \<lparr>selectedAgent := Some \<lparr>agent_id = ''a1'', configType = ''mock''\<rparr>,
            selectedTask := Some \<lparr>task_id = ''t1''\<rparr>\<rparr>))) = []"
  by (simp add: runBenchmark_def playground_init_def emit_def
        Let_def setResult_def setIsRunning_def benchmarkData_def)

section \<open>Properties of the polling loop of \<^verbatim>\<open>Playground\<close>\<close>

lemma delivered_append [simp]: "delivered (a @ b) = delivered a @ delivered b"
  by (induction a) (auto split: event.splits)

lemma delays_append [simp]: "delays (a @ b) = delays a @ delays b"
  by (induction a) (auto split: event.splits)

lemma polls_append [simp]: "polls (a @ b) = polls a + polls b"
  by (induction a) (auto split: event.splits)

lemma posts_append [simp]: "posts (a @ b) = posts a @ posts b"
  by (induction a) (auto split: event.splits)

lemma emit_fields [simp]:
  "trace (emit es w) = trace w @ es"
  "isRunning (emit es w) = isRunning w"
  "result (emit es w) = result w"
  "sessionStorage (emit es w) = sessionStorage w"
  "localStorage (emit es w) = localStorage w"
  by (simp_all add: emit_def)

lemma setResult_fields [simp]:
  "trace (setResult v w) = trace w @ [SetResult v]"
  "isRunning (setResult v w) = isRunning w"
  "result (setResult v w) = v"
  "sessionStorage (setResult v w) = sessionStorage w"
  "localStorage (setResult v w) = localStorage w"
  by (simp_all add: setResult_def emit_def)

lemma setIsRunning_fields [simp]:
  "trace (setIsRunning f w) = trace w @ [SetIsRunning f]"
  "isRunning (setIsRunning f w) = f"
  "result (setIsRunning f w) = result w"
  "sessionStorage (setIsRunning f w) = sessionStorage w"
  "localStorage (setIsRunning f w) = localStorage w"
  by (simp_all add: setIsRunning_def emit_def)

lemma checkStatus_pending:
  assumes "a < maxAttempts" "pending (srv a)"
  shows "checkStatus sid srv a w =
         checkStatus sid srv (Suc a)
           (emit [SetTimeout 2000] (emit [HttpGetById ''/submissions/'' sid] w))"
  using assms
  by (subst checkStatus.simps)
     (auto simp: Let_def pending_def terminal_status_def split: sum.splits option.splits)

lemma checkStatus_terminal:
  assumes "a < maxAttempts" "srv a = Inr submission" "polled_status (srv a) = Some st"
    "terminal_status st"
  shows "checkStatus sid srv a w =
         emit [ToastSuccess ''Benchmark evaluation completed!'']
           (setIsRunning False (setResult submission (emit [HttpGetById ''/submissions/'' sid] w)))"
  using assms
  by (subst checkStatus.simps)
     (auto simp: Let_def terminal_status_def split: sum.splits option.splits)

text \<open>Induction along the polls: the loop either stops at this call or polls again.\<close>

lemma checkStatus_poll_induct [consumes 0, case_names stop again]:
  assumes stop: "\<And>a w. \<not> (a < maxAttempts \<and> pending (srv a)) \<Longrightarrow> P a w"
    and again: "\<And>a w. a < maxAttempts \<Longrightarrow> pending (srv a) \<Longrightarrow>
        P (Suc a) (emit [SetTimeout 2000] (emit [HttpGetById ''/submissions/'' sid] w)) \<Longrightarrow> P a w"
  shows "P a w"
proof (induction "maxAttempts - a" arbitrary: a w)
  case 0
  then show ?case by (intro stop) simp
next
  case (Suc n)
  then have n: "n = maxAttempts - Suc a" and lt: "a < maxAttempts" by simp_all
  show ?case
  proof (cases "pending (srv a)")
    case True
    from again[OF lt True Suc(1)[OF n]] show ?thesis .
  next
    case False
    then show ?thesis by (intro stop) simp
  qed
qed

lemma checkStatus_isRunning: "isRunning (checkStatus sid srv a w) = False"
proof (induction a w rule: checkStatus_poll_induct[where srv = srv and sid = sid])
  case (stop a w)
  then show ?case
    by (subst checkStatus.simps)
       (auto simp: Let_def pending_def terminal_status_def split: sum.splits option.splits)
next
  case (again a w)
  then show ?case by (simp add: checkStatus_pending)
qed

lemma checkStatus_storage:
  "sessionStorage (checkStatus sid srv a w) = sessionStorage w
   \<and> localStorage (checkStatus sid srv a w) = localStorage w
   \<and> posts (trace (checkStatus sid srv a w)) = posts (trace w)"
proof (induction a w rule: checkStatus_poll_induct[where srv = srv and sid = sid])
  case (stop a w)
  then show ?case
    by (subst checkStatus.simps, subst (2) checkStatus.simps, subst (3) checkStatus.simps)
       (auto simp: Let_def pending_def terminal_status_def split: sum.splits option.splits)
next
  case (again a w)
  then show ?case by (simp add: checkStatus_pending)
qed

lemma checkStatus_polls:
  "polls (trace (checkStatus sid srv a w)) \<le> polls (trace w) + (maxAttempts - a)"
proof (induction a w rule: checkStatus_poll_induct[where srv = srv and sid = sid])
  case (stop a w)
  then show ?case
    by (subst checkStatus.simps)
       (auto simp: Let_def pending_def terminal_status_def split: sum.splits option.splits)
next
  case (again a w)
  then show ?case by (simp add: checkStatus_pending)
qed

lemma checkStatus_delivered_le:
  "length (delivered (trace (checkStatus sid srv a w))) \<le> length (delivered (trace w)) + 1"
proof (induction a w rule: checkStatus_poll_induct[where srv = srv and sid = sid])
  case (stop a w)
  then show ?case
    by (subst checkStatus.simps)
       (auto simp: Let_def pending_def terminal_status_def split: sum.splits option.splits)
next
  case (again a w)
  then show ?case by (simp add: checkStatus_pending)
qed

lemma checkStatus_delays:
  "\<exists>n \<le> maxAttempts - a. delays (trace (checkStatus sid srv a w)) = delays (trace w) @ replicate n 2000"
proof (induction a w rule: checkStatus_poll_induct[where srv = srv and sid = sid])
  case (stop a w)
  then show ?case
    by (subst checkStatus.simps)
       (auto simp: Let_def pending_def terminal_status_def split: sum.splits option.splits)
next
  case (again a w)
  then obtain n where n: "n \<le> maxAttempts - Suc a"
    "delays (trace (checkStatus sid srv (Suc a)
        (emit [SetTimeout 2000] (emit [HttpGetById ''/submissions/'' sid] w))))
     = delays (trace w) @ replicate (Suc n) 2000"
    by auto
  have "Suc n \<le> maxAttempts - a" using n(1) again(1) by simp
  then show ?case using again(1,2) n(2) by (auto simp add: checkStatus_pending simp del: replicate_Suc)
qed

lemma checkStatus_never_terminal:
  "(\<forall>j. pending (srv j)) \<Longrightarrow>
   delivered (trace (checkStatus sid srv a w)) = delivered (trace w)"
proof (induction a w rule: checkStatus_poll_induct[where srv = srv and sid = sid])
  case (stop a w)
  then show ?case by (subst checkStatus.simps) (auto simp: Let_def)
next
  case (again a w)
  then show ?case by (simp add: checkStatus_pending)
qed

lemma checkStatus_first_terminal:
  "a \<le> k \<Longrightarrow> k < maxAttempts \<Longrightarrow> (\<forall>j. a \<le> j \<and> j < k \<longrightarrow> pending (srv j)) \<Longrightarrow>
   srv k = Inr submission \<Longrightarrow> polled_status (srv k) = Some st \<Longrightarrow> terminal_status st \<Longrightarrow>
   delivered (trace (checkStatus sid srv a w)) = delivered (trace w) @ [submission]
   \<and> result (checkStatus sid srv a w) = submission
   \<and> polls (trace (checkStatus sid srv a w)) = polls (trace w) + (k - a + 1)
   \<and> delays (trace (checkStatus sid srv a w)) = delays (trace w) @ replicate (k - a) 2000"
proof (induction "k - a" arbitrary: a w)
  case 0
  then have "a = k" by simp
  then show ?case using 0 by (simp add: checkStatus_terminal)
next
  case (Suc n)
  then have lt: "a < k" by simp
  then have p: "pending (srv a)" using Suc(5) by simp
  have n: "n = k - Suc a" using Suc(2) by simp
  have r: "replicate (k - a) (2000::nat) = 2000 # replicate (k - Suc a) 2000"
    by (metis Suc(2) n replicate_Suc)
  have k: "k - a + 1 = Suc (k - Suc a + 1)" using lt by simp
  show ?case
    using Suc(1)[OF n, of "emit [SetTimeout 2000] (emit [HttpGetById ''/submissions/'' sid] w)"]
      Suc(3-) lt p
    by (simp add: checkStatus_pending r k del: replicate_Suc)
qed

lemma never_terminal_pending:
  "polled_status r = Some (JStr ''timed_out'') \<or> polled_status r = Some (JStr ''cancelled'')
   \<Longrightarrow> pending r"
  by (auto simp: pending_def terminal_status_def)

text \<open>
  Claim C3, as amended. The polling loop hands at most one result to \<^verbatim>\<open>setResult\<close>.
  It hands over exactly one, the polled submission, when one of the first 30 polls is
  answered with status \<^verbatim>\<open>'completed'\<close> or \<^verbatim>\<open>'failed'\<close> and every earlier poll was
  answered with another status. The statuses \<^verbatim>\<open>'timed_out'\<close> and \<^verbatim>\<open>'cancelled'\<close>
  are not terminal for the loop: a run that only ever reports them gets no result.
\<close>

theorem pollSubmissionStatus_delivers_result:
  "length (delivered (trace (pollSubmissionStatus sid srv w))) \<le> length (delivered (trace w)) + 1
   \<and> (k < maxAttempts \<and> (\<forall>j<k. pending (srv j)) \<and> srv k = Inr submission
        \<and> polled_status (srv k) = Some st \<and> terminal_status st
      \<longrightarrow> delivered (trace (pollSubmissionStatus sid srv w)) = delivered (trace w) @ [submission]
          \<and> result (pollSubmissionStatus sid srv w) = submission)
   \<and> ((\<forall>j. polled_status (srv j) = Some (JStr ''timed_out'')
             \<or> polled_status (srv j) = Some (JStr ''cancelled''))
      \<longrightarrow> delivered (trace (pollSubmissionStatus sid srv w)) = delivered (trace w))"
proof (intro conjI impI)
  show "length (delivered (trace (pollSubmissionStatus sid srv w))) \<le> length (delivered (trace w)) + 1"
    using checkStatus_delivered_le[of sid srv 0 "emit [SetTimeout 2000] w"]
    by (simp add: pollSubmissionStatus_def)
next
  assume h: "k < maxAttempts \<and> (\<forall>j<k. pending (srv j)) \<and> srv k = Inr submission
        \<and> polled_status (srv k) = Some st \<and> terminal_status st"
  then have "delivered (trace (checkStatus sid srv 0 (emit [SetTimeout 2000] w))) =
      delivered (trace (emit [SetTimeout 2000] w)) @ [submission]
    \<and> result (checkStatus sid srv 0 (emit [SetTimeout 2000] w)) = submission
    \<and> polls (trace (checkStatus sid srv 0 (emit [SetTimeout 2000] w))) =
        polls (trace (emit [SetTimeout 2000] w)) + (k - 0 + 1)
    \<and> delays (trace (checkStatus sid srv 0 (emit [SetTimeout 2000] w))) =
        delays (trace (emit [SetTimeout 2000] w)) @ replicate (k - 0) 2000"
    by (intro checkStatus_first_terminal) auto
  then show "delivered (trace (pollSubmissionStatus sid srv w)) = delivered (trace w) @ [submission]"
    and "result (pollSubmissionStatus sid srv w) = submission"
    by (simp_all add: pollSubmissionStatus_def)
next
  assume "\<forall>j. polled_status (srv j) = Some (JStr ''timed_out'')
             \<or> polled_status (srv j) = Some (JStr ''cancelled'')"
  then have "\<forall>j. pending (srv j)"
    by (metis never_terminal_pending)
  then show "delivered (trace (pollSubmissionStatus sid srv w)) = delivered (trace w)"
    using checkStatus_never_terminal[of srv sid 0 "emit [SetTimeout 2000] w"]
    by (simp add: pollSubmissionStatus_def)
qed

theorem pollSubmissionStatus_delivers_result_witness:
  "delivered (trace (pollSubmissionStatus (JStr ''s1'')
      (\<lambda>j. if j < 2 then Inr (JObj [(''id'', JStr ''s1''), (''status'', JStr ''processing'')])
            else Inr (JObj [(''id'', JStr ''s1''), (''status'', JStr ''failed'')]))
      (playground_init Map.empty Map.empty)))
   = [JObj [(''id'', JStr ''s1''), (''status'', JStr ''failed'')]]
   \<and> delivered (trace (pollSubmissionStatus (JStr ''s1'')
      (\<lambda>j. Inr (JObj [(''id'', JStr ''s1''), (''status'', JStr ''cancelled'')]))
      (playground_init Map.empty Map.empty))) = []"
  using pollSubmissionStatus_delivers_result[of "JStr ''s1''"
      "\<lambda>j. if j < 2 then Inr (JObj [(''id'', JStr ''s1''), (''status'', JStr ''processing'')])
            else Inr (JObj [(''id'', JStr ''s1''), (''status'', JStr ''failed'')])"
      "playground_init Map.empty Map.empty" 2
      "JObj [(''id'', JStr ''s1''), (''status'', JStr ''failed'')]" "JStr ''failed''"]
    pollSubmissionStatus_delivers_result[of "JStr ''s1''"
      "\<lambda>j. Inr (JObj [(''id'', JStr ''s1''), (''status'', JStr ''cancelled'')])"
      "playground_init Map.empty Map.empty"]
  by (simp add: maxAttempts_def pending_def terminal_status_def playground_init_def)

text \<open>
  The claim as stated fails for the status \<^verbatim>\<open>'timed_out'\<close>: the loop polls until
  its attempts run out and never calls \<^verbatim>\<open>setResult\<close>.
\<close>

theorem pollSubmissionStatus_timed_out_delivers_nothing:
  "delivered (trace (pollSubmissionStatus (JStr ''s1'')
      (\<lambda>j. Inr (JObj [(''id'', JStr ''s1''), (''status'', JStr ''timed_out'')]))
      (playground_init Map.empty Map.empty))) = []"
proof -
  have "\<forall>j. pending ((\<lambda>j. Inr (JObj [(''id'', JStr ''s1''), (''status'', JStr ''timed_out'')])) j)"
    by (simp add: pending_def terminal_status_def)
  from checkStatus_never_terminal[OF this, of "JStr ''s1''" 0
      "emit [SetTimeout 2000] (playground_init Map.empty Map.empty)"]
  show ?thesis by (simp add: pollSubmissionStatus_def playground_init_def)
qed

section \<open>Properties of \<^verbatim>\<open>useFetchSubmissions\<close>\<close>

lemma pollSubmissions_again:
  assumes "a < maxLimit" "cache_done (cache a) = Inr False"
  shows "pollSubmissions t cache a d tr =
         pollSubmissions t cache (Suc a) (d * 2)
           (tr @ [HttpGet (''/submissions/task/'' @ t), SetTimeout (d * 2)])"
  using assms by (subst pollSubmissions.simps) (simp add: Let_def cache_done_def)

lemma pollSubmissions_done:
  assumes "a < maxLimit" "cache_done (cache a) = Inr True"
  shows "pollSubmissions t cache a d tr =
         (None, tr @ [HttpGet (''/submissions/task/'' @ t),
                      ConsoleLog ''All submissions completed. Stopping polling.''])"
  using assms by (subst pollSubmissions.simps) (simp add: Let_def cache_done_def)

lemma pollSubmissions_induct [consumes 0, case_names stop again]:
  assumes stop: "\<And>a d tr. \<not> (a < maxLimit \<and> cache_done (cache a) = Inr False) \<Longrightarrow> P a d tr"
    and again: "\<And>a d tr. a < maxLimit \<Longrightarrow> cache_done (cache a) = Inr False \<Longrightarrow>
        P (Suc a) (d * 2) (tr @ [HttpGet (''/submissions/task/'' @ t), SetTimeout (d * 2)]) \<Longrightarrow>
        P a d tr"
  shows "P a d tr"
proof (induction "maxLimit - a" arbitrary: a d tr)
  case 0
  then show ?case by (intro stop) simp
next
  case (Suc n)
  then have n: "n = maxLimit - Suc a" and lt: "a < maxLimit" by simp_all
  show ?case
  proof (cases "cache_done (cache a) = Inr False")
    case True
    from again[OF lt True Suc(1)[OF n]] show ?thesis .
  next
    case False
    then show ?thesis by (intro stop) simp
  qed
qed

lemma pollSubmissions_polls:
  "polls (snd (pollSubmissions t cache a d tr)) \<le> polls tr + (maxLimit - a)"
proof (induction a d tr rule: pollSubmissions_induct[where cache = cache and t = t])
  case (stop a d tr)
  then show ?case
    by (subst pollSubmissions.simps)
       (auto simp: Let_def cache_done_def split: sum.splits)
next
  case (again a d tr)
  then show ?case by (simp add: pollSubmissions_again)
qed

lemma pollSubmissions_delays:
  "\<exists>n \<le> maxLimit - a. delays (snd (pollSubmissions t cache a d tr)) =
      delays tr @ map (\<lambda>i. d * 2 ^ Suc i) [0..<n]"
proof (induction a d tr rule: pollSubmissions_induct[where cache = cache and t = t])
  case (stop a d tr)
  then show ?case
    by (subst pollSubmissions.simps)
       (auto simp: Let_def cache_done_def split: sum.splits)
next
  case (again a d tr)
  then obtain n where n: "n \<le> maxLimit - Suc a"
    "delays (snd (pollSubmissions t cache (Suc a) (d * 2)
        (tr @ [HttpGet (''/submissions/task/'' @ t), SetTimeout (d * 2)])))
     = delays (tr @ [HttpGet (''/submissions/task/'' @ t), SetTimeout (d * 2)])
       @ map (\<lambda>i. d * 2 * 2 ^ Suc i) [0..<n]"
    by blast
  have "delays (snd (pollSubmissions t cache a d tr)) =
        delays tr @ map (\<lambda>i. d * 2 ^ Suc i) [0..<Suc n]"
    using n(2) again(1,2)
    by (simp add: pollSubmissions_again map_upt_Suc mult.assoc del: upt_Suc)
  moreover have "Suc n \<le> maxLimit - a" using n(1) again(1) by simp
  ultimately show ?case by blast
qed

lemma growing_doubling: "0 < d \<Longrightarrow> growing (map (\<lambda>i. d * 2 ^ Suc i) [k..<n])"
proof (induction "n - k" arbitrary: k)
  case 0
  then show ?case by simp
next
  case (Suc m)
  then have lt: "k < n" by simp
  show ?case
  proof (cases "Suc k < n")
    case True
    have "growing (map (\<lambda>i. d * 2 ^ Suc i) [Suc k..<n])"
      using Suc(1)[of "Suc k"] Suc(2,3) by simp
    then show ?thesis using True lt Suc(3) by (simp add: upt_conv_Cons)
  next
    case False
    then show ?thesis using lt by (simp add: upt_conv_Cons)
  qed
qed

lemma pollSubmissions_first_done:
  "a \<le> k \<Longrightarrow> k < maxLimit \<Longrightarrow> (\<forall>j. a \<le> j \<and> j < k \<longrightarrow> cache_done (cache j) = Inr False) \<Longrightarrow>
   cache_done (cache k) = Inr True \<Longrightarrow>
   polls (snd (pollSubmissions t cache a d tr)) = polls tr + (k - a + 1)
   \<and> fst (pollSubmissions t cache a d tr) = None"
proof (induction "k - a" arbitrary: a d tr)
  case 0
  then have "a = k" by simp
  then show ?case using 0 by (simp add: pollSubmissions_done)
next
  case (Suc n)
  then have lt: "a < k" by simp
  then have p: "cache_done (cache a) = Inr False" using Suc(5) by simp
  have n: "n = k - Suc a" using Suc(2) by simp
  have k: "k - a + 1 = Suc (k - Suc a + 1)" using lt by simp
  show ?case
    using Suc(1)[OF n, of "d * 2" "tr @ [HttpGet (''/submissions/task/'' @ t), SetTimeout (d * 2)]"]
      Suc(3-) lt p
    by (simp add: pollSubmissions_again k)
qed

text \<open>
  Claim C4, as amended. Both polling loops are bounded. The effect of
  \<^verbatim>\<open>useFetchSubmissions\<close> fetches at most 5 times, waits 2000, 4000, 8000, ... ms
  between fetches (its delay starts at 1000 ms and is doubled before each wait, so the
  waits grow), and stops as soon as every fetched submission is \<^verbatim>\<open>'FAILED'\<close> or
  \<^verbatim>\<open>'COMPLETED'\<close>. \<^verbatim>\<open>Playground.pollSubmissionStatus\<close> polls at most 30 times and
  stops as soon as the status is \<^verbatim>\<open>'completed'\<close> or \<^verbatim>\<open>'failed'\<close>; every one of its
  waits is 2000 ms.
\<close>

theorem polling_loops_bounded:
  "polls (snd (useFetchSubmissions_effect taskId cache)) \<le> maxLimit
   \<and> (\<exists>n\<le>maxLimit. delays (snd (useFetchSubmissions_effect taskId cache)) =
          map (\<lambda>i. 1000 * 2 ^ Suc i) [0..<n])
   \<and> growing (delays (snd (useFetchSubmissions_effect taskId cache)))
   \<and> (taskId \<noteq> [] \<and> k < maxLimit \<and> (\<forall>j<k. cache_done (cache j) = Inr False)
        \<and> cache_done (cache k) = Inr True
      \<longrightarrow> polls (snd (useFetchSubmissions_effect taskId cache)) = Suc k)
   \<and> polls (trace (pollSubmissionStatus sid srv w)) \<le> polls (trace w) + maxAttempts
   \<and> (\<exists>n\<le>maxAttempts. delays (trace (pollSubmissionStatus sid srv w)) =
          delays (trace w) @ replicate (Suc n) 2000)
   \<and> (m < maxAttempts \<and> (\<forall>j<m. pending (srv j)) \<and> srv m = Inr submission
        \<and> polled_status (srv m) = Some st \<and> terminal_status st
      \<longrightarrow> polls (trace (pollSubmissionStatus sid srv w)) = polls (trace w) + Suc m)"
proof -
  have a: "polls (snd (useFetchSubmissions_effect taskId cache)) \<le> maxLimit"
    using pollSubmissions_polls[of taskId cache 0 1000 "[]"]
    by (simp add: useFetchSubmissions_effect_def)
  obtain n where n: "n \<le> maxLimit"
    "delays (snd (pollSubmissions taskId cache 0 1000 [])) = map (\<lambda>i. 1000 * 2 ^ Suc i) [0..<n]"
    using pollSubmissions_delays[of 0 taskId cache 1000 "[]"] by auto
  have b: "\<exists>n\<le>maxLimit. delays (snd (useFetchSubmissions_effect taskId cache)) =
          map (\<lambda>i. 1000 * 2 ^ Suc i) [0..<n]"
  proof (cases "taskId = []")
    case True
    then show ?thesis by (intro exI[of _ 0]) (simp add: useFetchSubmissions_effect_def)
  next
    case False
    then show ?thesis using n by (auto simp: useFetchSubmissions_effect_def)
  qed
  have c: "growing (delays (snd (useFetchSubmissions_effect taskId cache)))"
    using b growing_doubling[of 1000 0] by auto
  have d: "taskId \<noteq> [] \<and> k < maxLimit \<and> (\<forall>j<k. cache_done (cache j) = Inr False)
        \<and> cache_done (cache k) = Inr True
      \<longrightarrow> polls (snd (useFetchSubmissions_effect taskId cache)) = Suc k"
    using pollSubmissions_first_done[of 0 k cache taskId 1000 "[]"]
    by (auto simp: useFetchSubmissions_effect_def)
  have e: "polls (trace (pollSubmissionStatus sid srv w)) \<le> polls (trace w) + maxAttempts"
    using checkStatus_polls[of sid srv 0 "emit [SetTimeout 2000] w"]
    by (simp add: pollSubmissionStatus_def)
  have f: "\<exists>n\<le>maxAttempts. delays (trace (pollSubmissionStatus sid srv w)) =
          delays (trace w) @ replicate (Suc n) 2000"
    using checkStatus_delays[of 0 sid srv "emit [SetTimeout 2000] w"]
    by (auto simp: pollSubmissionStatus_def simp del: replicate_Suc simp add: replicate_Suc[symmetric] )
  have g: "m < maxAttempts \<and> (\<forall>j<m. pending (srv j)) \<and> srv m = Inr submission
        \<and> polled_status (srv m) = Some st \<and> terminal_status st
      \<longrightarrow> polls (trace (pollSubmissionStatus sid srv w)) = polls (trace w) + Suc m"
    using checkStatus_first_terminal[of 0 m srv submission st sid "emit [SetTimeout 2000] w"]
    by (auto simp: pollSubmissionStatus_def)
  from a b c d e f g show ?thesis by blast
qed


theorem polling_loops_bounded_witness:
  "polls (snd (useFetchSubmissions_effect ''t1''
       (\<lambda>j. if j < 2 then JArr [JObj [(''status'', JStr ''PENDING'')]]
             else JArr [JObj [(''status'', JStr ''COMPLETED'')], JObj [(''status'', JStr ''FAILED'')]]))) = 3
   \<and> polls (trace (pollSubmissionStatus (JStr ''s1'')
       (\<lambda>j. if j < 2 then Inr (JObj [(''id'', JStr ''s1''), (''status'', JStr ''processing'')])
             else Inr (JObj [(''id'', JStr ''s1''), (''status'', JStr ''completed'')]))
       (playground_init Map.empty Map.empty))) = 3"
  using polling_loops_bounded[of "''t1''"
      "\<lambda>j. if j < 2 then JArr [JObj [(''status'', JStr ''PENDING'')]]
             else JArr [JObj [(''status'', JStr ''COMPLETED'')], JObj [(''status'', JStr ''FAILED'')]]"
      2 "JStr ''s1''"
      "\<lambda>j. if j < 2 then Inr (JObj [(''id'', JStr ''s1''), (''status'', JStr ''processing'')])
             else Inr (JObj [(''id'', JStr ''s1''), (''status'', JStr ''completed'')])"
      "playground_init Map.empty Map.empty" 2
      "JObj [(''id'', JStr ''s1''), (''status'', JStr ''completed'')]" "JStr ''completed''"]
  by (simp add: maxLimit_def maxAttempts_def cache_done_def js_or_def pending_def
        terminal_status_def playground_init_def)

text \<open>
  The claim as stated fails for \<^verbatim>\<open>Playground.pollSubmissionStatus\<close>: it re-polls at
  a fixed interval, its second wait is not longer than its first.
\<close>

theorem pollSubmissionStatus_no_backoff:
  "\<not> growing (delays (trace (pollSubmissionStatus (JStr ''s1'')
       (\<lambda>j. if j < 1 then Inr (JObj [(''id'', JStr ''s1''), (''status'', JStr ''processing'')])
             else Inr (JObj [(''id'', JStr ''s1''), (''status'', JStr ''completed'')]))
       (playground_init Map.empty Map.empty))))"
proof -
  let ?srv = "\<lambda>j::nat. if j < 1 then Inr (JObj [(''id'', JStr ''s1''), (''status'', JStr ''processing'')])
             else (Inr (JObj [(''id'', JStr ''s1''), (''status'', JStr ''completed'')]) :: js_error + js)"
  have "delays (trace (checkStatus (JStr ''s1'') ?srv 0
           (emit [SetTimeout 2000] (playground_init Map.empty Map.empty))))
        = delays (trace (emit [SetTimeout 2000] (playground_init Map.empty Map.empty)))
          @ replicate (1 - 0) 2000"
    using checkStatus_first_terminal[of 0 1 ?srv
        "JObj [(''id'', JStr ''s1''), (''status'', JStr ''completed'')]" "JStr ''completed''"
        "JStr ''s1''" "emit [SetTimeout 2000] (playground_init Map.empty Map.empty)"]
    by (simp add: maxAttempts_def pending_def terminal_status_def)
  then show ?thesis by (simp add: pollSubmissionStatus_def playground_init_def)
qed

section \<open>Properties of the credential\<close>

lemma runBenchmark_catch_fields [simp]:
  "sessionStorage (runBenchmark_catch e w) = sessionStorage w"
  "localStorage (runBenchmark_catch e w) = localStorage w"
  "posts (trace (runBenchmark_catch e w)) = posts (trace w)"
  "isRunning (runBenchmark_catch e w) = False"
  by (simp_all add: runBenchmark_catch_def)

lemma pollSubmissionStatus_fields [simp]:
  "sessionStorage (pollSubmissionStatus sid srv w) = sessionStorage w"
  "localStorage (pollSubmissionStatus sid srv w) = localStorage w"
  "posts (trace (pollSubmissionStatus sid srv w)) = posts (trace w)"
  "isRunning (pollSubmissionStatus sid srv w) = False"
  using checkStatus_storage[of sid srv 0 "emit [SetTimeout 2000] w"]
  by (simp_all add: pollSubmissionStatus_def checkStatus_isRunning)

text \<open>
  The other exits of a run that \<^verbatim>\<open>runBenchmark\<close> has started do reset
  \<^verbatim>\<open>isRunning\<close>: a rejected request, an answer without a body, and an answer with
  status \<^verbatim>\<open>'pending'\<close> or \<^verbatim>\<open>'processing'\<close>, whatever the polls then bring.
\<close>

lemma runBenchmark_resets_isRunning:
  assumes "selectedAgent w = Some a" "selectedTask w = Some t"
    and "\<not> (configType a = ''real'' \<and> \<not> truthy (mockMode (healthStatus w)) \<and> llmApiKey w = [])"
    and "polled_status post = None \<or> polled_status post = Some (JStr ''pending'')
         \<or> polled_status post = Some (JStr ''processing'')"
  shows "isRunning (runBenchmark post srv w) = False"
  using assms
  by (cases post) (auto simp: runBenchmark_def Let_def split: sum.splits)


lemma logged_from_append:
  "logged_from (a @ b) cur = logged_from a cur @ logged_from b (last_body a cur)"
  by (induction a arbitrary: cur) (auto split: event.splits js_error.splits option.splits)


lemma modal_fields [simp]:
  "showApiKeyModal (emit es w) = showApiKeyModal w"
  "showApiKeyModal (setResult v w) = showApiKeyModal w"
  "showApiKeyModal (setIsRunning b w) = showApiKeyModal w"
  by (simp_all add: emit_def setResult_def setIsRunning_def)

lemma checkStatus_stop_quiet:
  assumes "\<not> (a < maxAttempts \<and> pending (srv a))"
  shows "showApiKeyModal (checkStatus sid srv a w) = showApiKeyModal w
         \<and> logged_from (trace (checkStatus sid srv a w)) cur = logged_from (trace w) cur"
proof (cases "a < maxAttempts")
  case False
  then show ?thesis
    by (simp add: checkStatus.simps[of sid srv a w] logged_from_append)
next
  case True
  with assms have np: "\<not> pending (srv a)" by simp
  show ?thesis
  proof (cases "srv a")
    case (Inl e)
    with True show ?thesis
      by (simp add: checkStatus.simps[of sid srv a w] logged_from_append split: js_error.splits)
  next
    case (Inr submission)
    show ?thesis
    proof (cases "member submission ''status''")
      case (Inl e)
      with True Inr show ?thesis
        by (simp add: checkStatus.simps[of sid srv a w] logged_from_append split: js_error.splits)
    next
      case st: (Inr st)
      with np Inr have "st = JStr ''completed'' \<or> st = JStr ''failed''"
        by (simp add: pending_def terminal_status_def)
      with True Inr st show ?thesis
        by (simp add: checkStatus.simps[of sid srv a w] logged_from_append)
    qed
  qed
qed

lemma checkStatus_quiet:
  "showApiKeyModal (checkStatus sid srv a w) = showApiKeyModal w
   \<and> logged_from (trace (checkStatus sid srv a w)) cur = logged_from (trace w) cur"
proof (induction a w rule: checkStatus_poll_induct[where srv = srv and sid = sid])
  case (stop a w)
  then show ?case by (rule checkStatus_stop_quiet)
next
  case (again a w)
  then show ?case by (simp add: checkStatus_pending logged_from_append)
qed

text \<open>
  The key dialog of \<^verbatim>\<open>Playground\<close> is rendered while \<^verbatim>\<open>showApiKeyModal\<close> holds,
  and so is its submit handler \<^verbatim>\<open>handleApiKeySubmit\<close> reachable only then. The flag
  starts as \<^verbatim>\<open>false\<close> and only \<^verbatim>\<open>runBenchmark\<close> sets it, which it does not do while
  \<^verbatim>\<open>healthStatus.mockMode\<close> is truthy; \<^verbatim>\<open>mockMode\<close> starts as \<^verbatim>\<open>true\<close> and stays
  truthy after every \<^verbatim>\<open>fetchData\<close> (\<open>fetchData_mockMode_truthy\<close>). The key input of the
  evaluation options is rendered under the same test. The key of a run is therefore
  the one that \<^verbatim>\<open>handleAgentSelect\<close> found in \<^verbatim>\<open>sessionStorage\<close> (the effect that
  takes a preselected agent from the router state reads the same entry).
\<close>

lemma runBenchmark_keeps_modal_closed:
  assumes "truthy (mockMode (healthStatus w))"
  shows "showApiKeyModal (runBenchmark post srv w) = showApiKeyModal w"
proof (cases "selectedAgent w")
  case None
  then show ?thesis by (simp add: runBenchmark_def)
next
  case a: (Some a)
  show ?thesis
  proof (cases "selectedTask w")
    case None
    with a show ?thesis by (simp add: runBenchmark_def)
  next
    case t: (Some t)
    from a t assms show ?thesis
      by (simp add: runBenchmark_def runBenchmark_catch_def pollSubmissionStatus_def
            checkStatus_quiet Let_def split: sum.splits)
  qed
qed


lemma runBenchmark_rejected_logged:
  assumes "selectedAgent w = Some a" "selectedTask w = Some t" "llmApiKey w \<noteq> []"
  shows "logged_bodies (trace (runBenchmark (Inl (AxiosError r)) srv w)) =
           logged_bodies (trace w) @ [benchmarkData a t (llmApiKey w)]"
  using assms
  by (simp add: runBenchmark_def runBenchmark_catch_def logged_bodies_def
        logged_from_append Let_def)






section \<open>Properties of the response interceptor\<close>

lemma attach_token_retry [simp]: "retry (attach_token b config) = retry config"
  by (simp add: attach_token_def split: option.splits)

lemma axiosInstance_retried:
  assumes "retry config"
  shows "axiosInstance server refresh config b =
         (server (length (sent b)) (attach_token b config),
          b\<lparr>sent := sent b @ [attach_token b config]\<rparr>)"
  using assms
  by (subst axiosInstance.simps) (simp add: Let_def split: sum.splits)

lemma axiosInstance_refresh_failed:
  assumes "server (length (sent b)) (attach_token b config) = Inl e" "error_status e = Some 401"
    "\<not> retry config" "refresh_error (storage b) refresh = Some re"
  shows "fst (axiosInstance server refresh config b) = Inl re
       \<and> storage (snd (axiosInstance server refresh config b)) =
           (storage b)(''access_token'' := None, ''refresh_token'' := None,
                       ''role'' := None, ''username'' := None)
       \<and> href (snd (axiosInstance server refresh config b)) = ''/login''
       \<and> dispatched (snd (axiosInstance server refresh config b)) = dispatched b @ [''storage'']
       \<and> sent (snd (axiosInstance server refresh config b)) = sent b @ [attach_token b config]"
  using assms
  by (subst axiosInstance.simps, subst (2) axiosInstance.simps, subst (3) axiosInstance.simps,
      subst (4) axiosInstance.simps, subst (5) axiosInstance.simps)
     (auto simp: Let_def refresh_error_def refresh_failed_def
           split: option.splits if_splits refresh_reply.splits)

lemma axiosInstance_sent:
  "length (sent (snd (axiosInstance server refresh config b))) \<le> length (sent b) + 2
   \<and> length (refreshes (snd (axiosInstance server refresh config b))) \<le> length (refreshes b) + 1"
proof (cases "retry config")
  case True
  then show ?thesis by (simp add: axiosInstance_retried)
next
  case False
  then show ?thesis
    by (subst axiosInstance.simps, subst (2) axiosInstance.simps)
       (auto simp: Let_def refresh_failed_def axiosInstance_retried
             split: sum.splits option.splits refresh_reply.splits)
qed

text \<open>
  Claim C9. A request through \<^verbatim>\<open>axiosInstance\<close> is transmitted at most twice and
  the refresh endpoint is called at most once: a request whose \<^verbatim>\<open>_retry\<close> flag is set
  is transmitted once and its outcome returned as it is. When the first transmission
  fails with status 401 and the token refresh fails, the refresh error is the rejection,
  \<^verbatim>\<open>access_token\<close>, \<^verbatim>\<open>refresh_token\<close>, \<^verbatim>\<open>role\<close> and \<^verbatim>\<open>username\<close> are gone
  from \<^verbatim>\<open>localStorage\<close>, the location is \<^verbatim>\<open>/login\<close>, and the request is not sent
  again.
\<close>

theorem axiosInstance_retries_once:
  "length (sent (snd (axiosInstance server refresh config b))) \<le> length (sent b) + 2
   \<and> length (refreshes (snd (axiosInstance server refresh config b))) \<le> length (refreshes b) + 1
   \<and> (retry config \<longrightarrow>
        axiosInstance server refresh config b =
          (server (length (sent b)) (attach_token b config),
           b\<lparr>sent := sent b @ [attach_token b config]\<rparr>))
   \<and> (server (length (sent b)) (attach_token b config) = Inl e \<and> error_status e = Some 401
        \<and> \<not> retry config \<and> refresh_error (storage b) refresh = Some re \<longrightarrow>
        fst (axiosInstance server refresh config b) = Inl re
        \<and> storage (snd (axiosInstance server refresh config b)) ''access_token'' = None
        \<and> storage (snd (axiosInstance server refresh config b)) ''refresh_token'' = None
        \<and> storage (snd (axiosInstance server refresh config b)) ''role'' = None
        \<and> storage (snd (axiosInstance server refresh config b)) ''username'' = None
        \<and> href (snd (axiosInstance server refresh config b)) = ''/login''
        \<and> sent (snd (axiosInstance server refresh config b)) = sent b @ [attach_token b config])"
proof (intro conjI impI)
  assume h: "server (length (sent b)) (attach_token b config) = Inl e \<and> error_status e = Some 401
        \<and> \<not> retry config \<and> refresh_error (storage b) refresh = Some re"
  note f = axiosInstance_refresh_failed[of server b config e refresh re]
  show "fst (axiosInstance server refresh config b) = Inl re" using h f by blast
  show "href (snd (axiosInstance server refresh config b)) = ''/login''" using h f by blast
  show "sent (snd (axiosInstance server refresh config b)) = sent b @ [attach_token b config]"
    using h f by blast
  have s: "storage (snd (axiosInstance server refresh config b)) =
           (storage b)(''access_token'' := None, ''refresh_token'' := None,
                       ''role'' := None, ''username'' := None)" using h f by blast
  show "storage (snd (axiosInstance server refresh config b)) ''access_token'' = None"
    by (simp add: s)
  show "storage (snd (axiosInstance server refresh config b)) ''refresh_token'' = None"
    by (simp add: s)
  show "storage (snd (axiosInstance server refresh config b)) ''role'' = None"
    by (simp add: s)
  show "storage (snd (axiosInstance server refresh config b)) ''username'' = None"
    by (simp add: s)
qed (use axiosInstance_sent[of server refresh config b] in \<open>simp_all add: axiosInstance_retried\<close>)

theorem axiosInstance_retries_once_witness:
  "fst (axiosInstance (\<lambda>n c. Inl (AxiosError (Some (401, JNull))))
          (\<lambda>r. RefreshRejected (AxiosError (Some (401, JNull))))
          \<lparr>url = ''/agents'', authorization = None, retry = False\<rparr> logged_in)
     = Inl (AxiosError (Some (401, JNull)))
   \<and> href (snd (axiosInstance (\<lambda>n c. Inl (AxiosError (Some (401, JNull))))
          (\<lambda>r. RefreshRejected (AxiosError (Some (401, JNull))))
          \<lparr>url = ''/agents'', authorization = None, retry = False\<rparr> logged_in)) = ''/login''
   \<and> storage (snd (axiosInstance (\<lambda>n c. Inl (AxiosError (Some (401, JNull))))
          (\<lambda>r. RefreshRejected (AxiosError (Some (401, JNull))))
          \<lparr>url = ''/agents'', authorization = None, retry = False\<rparr> logged_in)) ''access_token'' = None
   \<and> snd (axiosInstance (\<lambda>n c. Inl (AxiosError (Some (401, JNull))))
          (\<lambda>r. RefreshBody ''new'')
          \<lparr>url = ''/agents'', authorization = None, retry = True\<rparr> logged_in)
     = logged_in\<lparr>sent := [\<lparr>url = ''/agents'', authorization = Some ''Bearer old'', retry = True\<rparr>]\<rparr>"
  using axiosInstance_retries_once[of "\<lambda>n c. Inl (AxiosError (Some (401, JNull)))"
      "\<lambda>r. RefreshRejected (AxiosError (Some (401, JNull)))"
      "\<lparr>url = ''/agents'', authorization = None, retry = False\<rparr>" logged_in
      "AxiosError (Some (401, JNull))" "AxiosError (Some (401, JNull))"]
    axiosInstance_retries_once[of "\<lambda>n c. Inl (AxiosError (Some (401, JNull)))"
      "\<lambda>r. RefreshBody ''new''"
      "\<lparr>url = ''/agents'', authorization = None, retry = True\<rparr>" logged_in]
  by (simp add: logged_in_def refresh_error_def attach_token_def)

section \<open>Properties of the health probe's callers\<close>

text \<open>
  Claim C5, as amended. No exception leaves either caller of the health probe, whatever
  the probe's outcome, and each caller sends the probe request and no other. When the
  request fails, \<^verbatim>\<open>CreateAgent\<close> sets mock mode on and the supported providers to
  the empty array, \<^verbatim>\<open>PlaygroundHealthCheck\<close> sets status \<^verbatim>\<open>'error'\<close>, mock mode on,
  both services not ready and leaves the supported providers undefined; beyond the probe
  call, both report the failure with \<^verbatim>\<open>console.error\<close>, and
  \<^verbatim>\<open>PlaygroundHealthCheck\<close> also with an error toast.
\<close>

theorem health_probe_failure_not_fatal:
  "fst (CreateAgent_checkPlaygroundHealth r s) = None
   \<and> fst (PlaygroundHealthCheck_checkPlaygroundHealth r h) = None
   \<and> polls (ca_trace (snd (CreateAgent_checkPlaygroundHealth r s))) = polls (ca_trace s) + 1
   \<and> posts (ca_trace (snd (CreateAgent_checkPlaygroundHealth r s))) = posts (ca_trace s)
   \<and> polls (hc_trace (snd (PlaygroundHealthCheck_checkPlaygroundHealth r h))) = polls (hc_trace h) + 1
   \<and> posts (hc_trace (snd (PlaygroundHealthCheck_checkPlaygroundHealth r h))) = posts (hc_trace h)
   \<and> (r = Inl e \<longrightarrow>
        ca_mockMode (snd (CreateAgent_checkPlaygroundHealth r s)) = JBool True
        \<and> ca_supportedProviders (snd (CreateAgent_checkPlaygroundHealth r s)) = JArr []
        \<and> ca_trace (snd (CreateAgent_checkPlaygroundHealth r s)) =
            ca_trace s @ [HttpGet ''/playground/health'',
                          ConsoleError ''Error checking playground health:'' e]
        \<and> phc_mockMode (hc_status (snd (PlaygroundHealthCheck_checkPlaygroundHealth r h))) = JBool True
        \<and> playgroundStatus (hc_status (snd (PlaygroundHealthCheck_checkPlaygroundHealth r h))) = JStr ''error''
        \<and> isLLMServiceReady (hc_status (snd (PlaygroundHealthCheck_checkPlaygroundHealth r h))) = JBool False
        \<and> isEvaluationServiceReady (hc_status (snd (PlaygroundHealthCheck_checkPlaygroundHealth r h))) = JBool False
        \<and> phc_supportedProviders (hc_status (snd (PlaygroundHealthCheck_checkPlaygroundHealth r h))) = JUndefined
        \<and> hc_trace (snd (PlaygroundHealthCheck_checkPlaygroundHealth r h)) =
            hc_trace h @ [HttpGet ''/playground/health'',
                          ConsoleError ''Error checking playground health:'' e,
                          ToastError (JStr ''Failed to check playground status'')])"
  by (cases r)
     (auto simp: CreateAgent_checkPlaygroundHealth_def PlaygroundHealthCheck_checkPlaygroundHealth_def
        CreateAgent_catch_def PlaygroundHealthCheck_catch_def phc_unhealthy_def Let_def
        split: sum.splits)

theorem health_probe_failure_not_fatal_witness:
  "ca_mockMode (snd (CreateAgent_checkPlaygroundHealth (Inl (AxiosError None))
      \<lparr>ca_supportedProviders = JArr [JStr ''openai''], ca_mockMode = JBool True, ca_trace = []\<rparr>))
     = JBool True
   \<and> playgroundStatus (hc_status (snd (PlaygroundHealthCheck_checkPlaygroundHealth
        (Inl (AxiosError None)) \<lparr>hc_status = phc_initial, hc_trace = []\<rparr>))) = JStr ''error''"
  using health_probe_failure_not_fatal[of "Inl (AxiosError None)"
      "\<lparr>ca_supportedProviders = JArr [JStr ''openai''], ca_mockMode = JBool True, ca_trace = []\<rparr>"
      "\<lparr>hc_status = phc_initial, hc_trace = []\<rparr>" "AxiosError None"]
  by simp

text \<open>
  The claim as stated fails in its last part: on a failed probe
  \<^verbatim>\<open>PlaygroundHealthCheck\<close> does more than the probe call, it writes to the console
  and shows a toast.
\<close>

theorem health_probe_failure_is_reported:
  "hc_trace (snd (PlaygroundHealthCheck_checkPlaygroundHealth (Inl (AxiosError None))
       \<lparr>hc_status = phc_initial, hc_trace = []\<rparr>))
     = [HttpGet ''/playground/health'',
        ConsoleError ''Error checking playground health:'' (AxiosError None),
        ToastError (JStr ''Failed to check playground status'')]
   \<and> hc_trace (snd (PlaygroundHealthCheck_checkPlaygroundHealth (Inl (AxiosError None))
       \<lparr>hc_status = phc_initial, hc_trace = []\<rparr>)) \<noteq> [HttpGet ''/playground/health'']"
  by (simp add: PlaygroundHealthCheck_checkPlaygroundHealth_def PlaygroundHealthCheck_catch_def)

section \<open>Properties of the Run Orchestrator\<close>

lemma build_fields [simp]:
  "status (build st m steps e v) = st"
  "matched (build st m steps e v) = m"
  "steps_taken (build st m steps e v) = length steps"
  "step_log (build st m steps e v) = steps"
  "last_verdict (build st m steps e v) = v"
  by (simp_all add: build_def)

lemma iteration_success:
  "iteration c t bad steps = Inl out \<Longrightarrow> last_verdict out = Some Success \<Longrightarrow>
   status out = completed \<and> matched out"
  by (auto simp: iteration_def Let_def
           split: sum.splits action.splits option.splits verdict.splits if_splits)

lemma running_success:
  "last_verdict (running c t bad steps) = Some Success \<Longrightarrow>
   status (running c t bad steps) = completed \<and> matched (running c t bad steps)"
proof (induction c t bad steps rule: running.induct)
  case (1 c t bad steps)
  show ?case
  proof (cases "step_budget t \<le> length steps")
    case True
    then show ?thesis using 1(2) by (subst (asm) running.simps) simp
  next
    case False
    show ?thesis
    proof (cases "iteration c t bad steps")
      case (Inl out)
      then have "running c t bad steps = out" using False by (subst running.simps) simp
      then show ?thesis using 1(2) iteration_success[OF Inl] by simp
    next
      case (Inr st)
      obtain bad' steps' where st: "st = (bad', steps')" by (cases st)
      have e: "running c t bad steps = running c t bad' steps'"
        using False Inr st by (subst running.simps) simp
      show ?thesis using 1(1)[OF False Inr st[symmetric]] 1(2) unfolding e by simp
    qed
  qed
qed

lemma iteration_timed_out:
  "iteration c t bad steps = Inl out \<Longrightarrow> status out = timed_out \<Longrightarrow>
   evaluate c (step_log out) = Continue"
  by (auto simp: iteration_def Let_def
           split: sum.splits action.splits option.splits verdict.splits if_splits)

lemma iteration_within_budget:
  "iteration c t bad steps = Inr (bad', steps') \<Longrightarrow> length steps' < step_budget t"
  by (auto simp: iteration_def Let_def
           split: sum.splits action.splits option.splits verdict.splits if_splits)

lemma running_timed_out:
  "length steps < step_budget t \<Longrightarrow> status (running c t bad steps) = timed_out \<Longrightarrow>
   evaluate c (step_log (running c t bad steps)) = Continue"
proof (induction c t bad steps rule: running.induct)
  case (1 c t bad steps)
  then have b: "\<not> step_budget t \<le> length steps" by simp
  show ?case
  proof (cases "iteration c t bad steps")
    case (Inl out)
    then have "running c t bad steps = out" using b by (subst running.simps) simp
    then show ?thesis using 1(3) iteration_timed_out[OF Inl] by simp
  next
    case (Inr st)
    obtain bad' steps' where st: "st = (bad', steps')" by (cases st)
    have e: "running c t bad steps = running c t bad' steps'"
      using b Inr st by (subst running.simps) simp
    have "length steps' < step_budget t"
      using iteration_within_budget[of c t bad steps bad' steps'] Inr st by simp
    from 1(1)[OF b Inr st[symmetric] this] 1(3) show ?thesis unfolding e by simp
  qed
qed

text \<open>
  Claim C6. When the Completion Evaluator returned success in the iteration that ended
  the run and the steps taken have reached the step budget, the outcome's status is
  \<open>completed\<close>; and a run with a step budget whose steps have reached the budget is never
  \<open>timed_out\<close> with a step log on which the evaluator returns success.
\<close>

theorem success_wins_budget_tie:
  "(last_verdict (start_run c t) = Some Success \<and> steps_taken (start_run c t) = step_budget t \<longrightarrow>
      status (start_run c t) = completed)
   \<and> (0 < step_budget t \<and> steps_taken (start_run c t) = step_budget t
        \<and> evaluate c (step_log (start_run c t)) = Success \<longrightarrow>
      status (start_run c t) \<noteq> timed_out)"
proof (intro conjI impI)
  assume "last_verdict (start_run c t) = Some Success \<and> steps_taken (start_run c t) = step_budget t"
  then show "status (start_run c t) = completed"
    using running_success[of c t 0 "[]"]
    by (auto simp: start_run_def split: option.splits if_splits)
next
  assume h: "0 < step_budget t \<and> steps_taken (start_run c t) = step_budget t
        \<and> evaluate c (step_log (start_run c t)) = Success"
  show "status (start_run c t) \<noteq> timed_out"
  proof
    assume t: "status (start_run c t) = timed_out"
    then have r: "start_run c t = running c t 0 []"
      by (auto simp: start_run_def split: option.splits if_splits)
    have "evaluate c (step_log (running c t 0 [])) = Continue"
      using running_timed_out[of "[]" t c 0] h t unfolding r by simp
    then show False using h unfolding r by simp
  qed
qed

theorem success_wins_budget_tie_witness:
  "last_verdict (start_run two_step_run two_step_task) = Some Success
   \<and> steps_taken (start_run two_step_run two_step_task) = step_budget two_step_task
   \<and> status (start_run two_step_run two_step_task) = completed"
proof -
  have r: "running two_step_run two_step_task 0 [] =
     build completed True
       [\<lparr>index = 0, observation_summary = ''page'', action = Operation ''click'',
          timestamp = 0, outcome = True\<rparr>,
        \<lparr>index = 1, observation_summary = ''page'', action = Operation ''click'',
          timestamp = 1, outcome = True\<rparr>] None (Some Success)"
    apply (subst running.simps)
    apply (simp add: iteration_def two_step_run_def two_step_task_def malformed_limit_def Let_def)
    apply (subst running.simps)
    apply (simp add: iteration_def two_step_run_def two_step_task_def malformed_limit_def Let_def)
    done
  have h: "last_verdict (start_run two_step_run two_step_task) = Some Success
      \<and> steps_taken (start_run two_step_run two_step_task) = step_budget two_step_task"
  proof -
    have p: "provision two_step_run = None" "\<not> cancel_signal two_step_run 0"
      "step_budget two_step_task = 2"
      by (simp_all add: two_step_run_def two_step_task_def)
    have "start_run two_step_run two_step_task = running two_step_run two_step_task 0 []"
      by (simp add: start_run_def p)
    then show ?thesis by (simp add: r p)
  qed
  with success_wins_budget_tie[of two_step_run two_step_task] show ?thesis by blast
qed

section \<open>Properties of the accuracy renderers\<close>

lemma round_shift_bounds:
  "m div 2 ^ k \<le> round_shift m k" "round_shift m k \<le> m div 2 ^ k + 1"
  by (simp_all add: round_shift_def Let_def)

lemma round_shift_exact: "round_shift (n * 2 ^ k) k = n"
  by (simp add: round_shift_def Let_def)

lemma round_shift_mono:
  assumes "a \<le> b"
  shows "round_shift a k \<le> round_shift b k"
proof (cases "a div 2 ^ k < b div 2 ^ k")
  case True
  then have "round_shift a k \<le> b div 2 ^ k" using round_shift_bounds(2)[of a k] by linarith
  then show ?thesis using round_shift_bounds(1)[of b k] by linarith
next
  case False
  have "a div 2 ^ k \<le> b div 2 ^ k" using assms by (simp add: zdiv_mono1)
  then have q: "a div 2 ^ k = b div 2 ^ k" using False by simp
  have "a div 2 ^ k * 2 ^ k + a mod 2 ^ k \<le> b div 2 ^ k * 2 ^ k + b mod 2 ^ k"
    using assms by (simp only: div_mult_mod_eq)
  then have "a mod 2 ^ k \<le> b mod 2 ^ k" using q by simp
  then show ?thesis using q by (auto simp: round_shift_def Let_def)
qed

lemma round_shift_ge: "n * 2 ^ k \<le> m \<Longrightarrow> n \<le> round_shift m k"
  using round_shift_mono[of "n * 2 ^ k" m k] by (simp add: round_shift_exact)

lemma round_shift_le: "m \<le> n * 2 ^ k \<Longrightarrow> round_shift m k \<le> n"
  using round_shift_mono[of m "n * 2 ^ k" k] by (simp add: round_shift_exact)

lemma round_shift_scale: "round_shift (m * 2 ^ j) (k + j) = round_shift m k"
proof -
  have d: "(m * 2 ^ j) div 2 ^ (k + j) = m div 2 ^ k"
    by (simp add: power_add mult.commute[of "2 ^ k"])
  have r: "(m * 2 ^ j) mod 2 ^ (k + j) = (m mod 2 ^ k) * 2 ^ j"
    by (simp add: power_add mult.commute[of "2 ^ k"] mult_mod_left)
  show ?thesis
    unfolding round_shift_def Let_def d r
    by (simp add: power_add)
qed


lemma bitlen_mono: "0 < a \<Longrightarrow> a \<le> b \<Longrightarrow> bitlen a \<le> bitlen b"
  by (simp add: bitlen_alt_def floor_mono)

lemma bitlen_upper: "0 \<le> m \<Longrightarrow> m < 2 ^ nat (bitlen m)"
  using bitlen_bounds[of m] by (cases "m = 0") auto

lemma bitlen_lower: "0 < m \<Longrightarrow> 2 ^ nat (bitlen m - 1) \<le> m"
  using bitlen_bounds[of m] by simp

lemma val_round_double:
  "val (round_double m e) =
     of_int (round_shift m (nat (max (bitlen \<bar>m\<bar> - 53) (- 1074 - e))))
       * 2 powi (e + int (nat (max (bitlen \<bar>m\<bar> - 53) (- 1074 - e))))"
  by (simp add: round_double_def val_def Let_def)

lemma val_nonneg: "0 \<le> m \<Longrightarrow> 0 \<le> val (round_double m e)"
proof -
  assume "0 \<le> m"
  then have "0 \<le> round_shift m (nat (max (bitlen \<bar>m\<bar> - 53) (- 1074 - e)))"
    using round_shift_ge[of 0 _ m] by simp
  then show ?thesis by (simp add: val_round_double)
qed

lemma powi_shift: "of_int (n * 2 ^ j) * (2::rat) powi (e - int j) = of_int n * 2 powi e"
  by (simp add: power_int_diff power_int_def[of _ "int j"] )


lemma round_double_zero: "val (round_double 0 e) = 0"
  by (simp add: val_round_double round_shift_def)

lemma round_double_align:
  assumes "0 < m"
  shows "val (round_double (m * 2 ^ j) (e - int j)) = val (round_double m e)"
proof -
  define x where "x = max (bitlen m - 53) (- 1074 - e)"
  have b: "bitlen (m * 2 ^ j) = bitlen m + int j" using assms by simp
  have a: "\<bar>m * 2 ^ j\<bar> = m * 2 ^ j" "\<bar>m\<bar> = m" using assms by simp_all
  have x': "max (bitlen \<bar>m * 2 ^ j\<bar> - 53) (- 1074 - (e - int j)) = x + int j"
    unfolding a b x_def by simp
  have l: "val (round_double (m * 2 ^ j) (e - int j)) =
      of_int (round_shift (m * 2 ^ j) (nat (x + int j))) * 2 powi (e - int j + int (nat (x + int j)))"
    unfolding val_round_double x' ..
  have r: "val (round_double m e) = of_int (round_shift m (nat x)) * 2 powi (e + int (nat x))"
    unfolding val_round_double a x_def ..
  show ?thesis
  proof (cases "0 \<le> x")
    case True
    then have n: "nat (x + int j) = nat x + j" by (simp add: nat_add_distrib)
    show ?thesis unfolding l r n round_shift_scale by simp
  next
    case False
    then have z: "nat x = 0" by simp
    define k where "k = nat (x + int j)"
    have kj: "k \<le> j" using False by (simp add: k_def)
    have "m * 2 ^ j = (m * 2 ^ (j - k)) * 2 ^ k"
      using kj by (simp add: power_add[symmetric])
    then have s: "round_shift (m * 2 ^ j) k = m * 2 ^ (j - k)"
      by (simp only: round_shift_exact)
    have e: "e - int j + int k = e - int (j - k)" using kj by simp
    have "val (round_double (m * 2 ^ j) (e - int j)) = of_int m * 2 powi e"
      unfolding l k_def[symmetric] s e by (rule powi_shift)
    moreover have "val (round_double m e) = of_int m * 2 powi e"
      unfolding r z using round_shift_exact[of m 0] by simp
    ultimately show ?thesis by simp
  qed
qed

lemma round_double_mono_aligned:
  assumes "0 \<le> m1" "m1 \<le> m2"
  shows "val (round_double m1 e) \<le> val (round_double m2 e)"
proof (cases "m1 = 0")
  case True
  then show ?thesis using assms val_nonneg[of m2 e] by (simp add: round_double_zero)
next
  case False
  then have p1: "0 < m1" and p2: "0 < m2" using assms by simp_all
  define c where "c = - 1074 - e"
  define k1 where "k1 = nat (max (bitlen m1 - 53) c)"
  define k2 where "k2 = nat (max (bitlen m2 - 53) c)"
  have v1: "val (round_double m1 e) = of_int (round_shift m1 k1) * 2 powi (e + int k1)"
    using p1 by (simp add: val_round_double k1_def c_def)
  have v2: "val (round_double m2 e) = of_int (round_shift m2 k2) * 2 powi (e + int k2)"
    using p2 by (simp add: val_round_double k2_def c_def)
  have bl: "bitlen m1 \<le> bitlen m2" using p1 assms(2) by (rule bitlen_mono)
  then have k12: "k1 \<le> k2" unfolding k1_def k2_def by (intro nat_mono) simp
  show ?thesis
  proof (cases "k1 = k2")
    case True
    have "round_shift m1 k2 \<le> round_shift m2 k2" using assms(2) by (rule round_shift_mono)
    then have "(of_int (round_shift m1 k2) :: rat) \<le> of_int (round_shift m2 k2)" by simp
    moreover have "(0::rat) \<le> 2 powi (e + int k2)" by simp
    ultimately show ?thesis unfolding v1 v2 True by (rule mult_right_mono)
  next
    case False
    then have lt: "k1 < k2" using k12 by simp
    have k2b: "int k2 = bitlen m2 - 53"
    proof (rule ccontr)
      assume n: "int k2 \<noteq> bitlen m2 - 53"
      have "0 < max (bitlen m2 - 53) c" using lt by (simp add: k2_def)
      then have "int k2 = max (bitlen m2 - 53) c" by (simp add: k2_def)
      then have "int k2 = c" "bitlen m2 - 53 \<le> c" using n by (auto simp: max_def split: if_splits)
      then have "int k2 \<le> max (bitlen m1 - 53) c" by simp
      then have "k2 \<le> k1" unfolding k1_def by simp
      then show False using lt by simp
    qed
    have "2 ^ nat (bitlen m2 - 1) \<le> m2" using p2 by (rule bitlen_lower)
    moreover have "nat (bitlen m2 - 1) = 52 + k2" using k2b by simp
    ultimately have m2b: "2 ^ 52 * 2 ^ k2 \<le> m2" by (simp add: power_add)
    have "bitlen m1 - 53 \<le> max (bitlen m1 - 53) c" by simp
    also have "\<dots> \<le> int k1"
      unfolding k1_def
      using nat_le_iff[of "max (bitlen m1 - 53) c" "nat (max (bitlen m1 - 53) c)"] by blast
    finally have "bitlen m1 - 53 \<le> int k1" .
    then have "bitlen m1 \<le> int (k2 + 52)" using lt by simp
    then have "nat (bitlen m1) \<le> k2 + 52" by simp
    then have "(2::int) ^ nat (bitlen m1) \<le> 2 ^ (k2 + 52)" by (intro power_increasing) simp_all
    moreover have "m1 < 2 ^ nat (bitlen m1)" using assms(1) by (rule bitlen_upper)
    ultimately have "m1 \<le> 2 ^ (k2 + 52)" by linarith
    moreover have "(2::int) ^ (k2 + 52) = 2 ^ (k2 + 52 - k1) * 2 ^ k1"
      using lt by (simp add: power_add[symmetric])
    ultimately have "m1 \<le> 2 ^ (k2 + 52 - k1) * 2 ^ k1" by simp
    then have r1: "round_shift m1 k1 \<le> 2 ^ (k2 + 52 - k1)" by (rule round_shift_le)
    have r2: "2 ^ 52 \<le> round_shift m2 k2" using m2b by (rule round_shift_ge)
    have "val (round_double m1 e) \<le> of_int (2 ^ (k2 + 52 - k1)) * 2 powi (e + int k1)"
      unfolding v1 using r1 by (intro mult_right_mono) (simp_all only: of_int_le_iff zero_le_power_int zero_le_numeral)
    also have "\<dots> = of_int (1 * 2 ^ (k2 + 52 - k1)) * 2 powi (e + int k2 + 52 - int (k2 + 52 - k1))"
      using lt by simp
    also have "\<dots> = of_int 1 * 2 powi (e + int k2 + 52)" by (rule powi_shift)
    also have "\<dots> = of_int (1 * 2 ^ 52) * 2 powi (e + int k2 + 52 - int 52)"
      by (rule powi_shift[symmetric])
    also have "\<dots> = of_int (2 ^ 52) * 2 powi (e + int k2)" by simp
    also have "\<dots> \<le> val (round_double m2 e)"
      unfolding v2 using r2 by (intro mult_right_mono) (simp_all only: of_int_le_iff zero_le_power_int zero_le_numeral)
    finally show ?thesis .
  qed
qed

lemma round_double_mono:
  assumes "0 \<le> m1" "of_int m1 * (2::rat) powi e1 \<le> of_int m2 * 2 powi e2"
  shows "val (round_double m1 e1) \<le> val (round_double m2 e2)"
proof -
  have "(0::rat) \<le> of_int m1 * 2 powi e1" using assms(1) by simp
  then have "(0::rat) \<le> of_int m2 * 2 powi e2" using assms(2) by linarith
  moreover have pos: "(0::rat) < 2 powi e2" by simp
  ultimately have "(0::rat) \<le> of_int m2" by (simp only: zero_le_mult_iff) linarith
  then have m2: "0 \<le> m2" by simp
  show ?thesis
  proof (cases "m1 = 0")
    case True
    then show ?thesis using val_nonneg[OF m2] by (simp add: round_double_zero)
  next
    case False
    then have p1: "0 < m1" using assms(1) by simp
    then have "(0::rat) < of_int m1 * 2 powi e1" by simp
    then have "(0::rat) < of_int m2 * 2 powi e2" using assms(2) by linarith
    then have "(0::rat) < of_int m2" using pos by (simp only: zero_less_mult_iff) linarith
    then have p2: "0 < m2" by simp
    define e where "e = min e1 e2"
    define j1 where "j1 = nat (e1 - e)"
    define j2 where "j2 = nat (e2 - e)"
    have e1: "e = e1 - int j1" and e2: "e = e2 - int j2" by (simp_all add: e_def j1_def j2_def)
    have a1: "val (round_double (m1 * 2 ^ j1) e) = val (round_double m1 e1)"
      unfolding e1 using p1 by (rule round_double_align)
    have a2: "val (round_double (m2 * 2 ^ j2) e) = val (round_double m2 e2)"
      unfolding e2 using p2 by (rule round_double_align)
    have s1: "of_int (m1 * 2 ^ j1) * (2::rat) powi e = of_int m1 * 2 powi e1"
      unfolding e1 by (rule powi_shift)
    have s2: "of_int (m2 * 2 ^ j2) * (2::rat) powi e = of_int m2 * 2 powi e2"
      unfolding e2 by (rule powi_shift)
    have "of_int (m1 * 2 ^ j1) * (2::rat) powi e \<le> of_int (m2 * 2 ^ j2) * 2 powi e"
      unfolding s1 s2 by (rule assms(2))
    moreover have "(0::rat) < 2 powi e" by simp
    ultimately have "(of_int (m1 * 2 ^ j1) :: rat) \<le> of_int (m2 * 2 ^ j2)"
      by (simp only: mult_le_cancel_right)
    then have le: "m1 * 2 ^ j1 \<le> m2 * 2 ^ j2" by (simp only: of_int_le_iff)
    have "0 \<le> m1 * 2 ^ j1" using assms(1) by simp
    from round_double_mono_aligned[OF this le, of e] show ?thesis unfolding a1 a2 .
  qed
qed

lemma bitlen_eqI:
  assumes "2 ^ n \<le> x" "x < 2 ^ Suc n"
  shows "bitlen x = int (Suc n)"
proof -
  have "(0::int) < 2 ^ n" by simp
  then have p: "0 < x" using assms(1) by linarith
  from bitlen_bounds[OF p] have b: "2 ^ nat (bitlen x - 1) \<le> x" "x < 2 ^ nat (bitlen x)" by simp_all
  have "(2::int) ^ n < 2 ^ nat (bitlen x)" using assms(1) b(2) by linarith
  then have 1: "n < nat (bitlen x)" by (simp add: power_strict_increasing_iff)
  have "(2::int) ^ nat (bitlen x - 1) < 2 ^ Suc n" using assms(2) b(1) by linarith
  then have 2: "nat (bitlen x - 1) < Suc n" by (simp only: power_strict_increasing_iff one_less_numeral_iff semiring_norm)
  show ?thesis using 1 2 by linarith
qed

lemma percentage_0075:
  "percentage (1080863910568919, - 57) = (6755399441055744, - 53)"
proof -
  have "bitlen 27021597764222975 = int (Suc 54)" by (rule bitlen_eqI) simp_all
  then show ?thesis
    by (simp add: percentage_def js_times_def hundred_def round_double_def round_shift_def Let_def)
qed

lemma percentage_007:
  "percentage (1261007895663739, - 54) = (7881299347898369, - 50)"
proof -
  have "bitlen 31525197391593475 = int (Suc 54)" by (rule bitlen_eqI) simp_all
  then show ?thesis
    by (simp add: percentage_def js_times_def hundred_def round_double_def round_shift_def Let_def)
qed

text \<open>
  The claim as stated fails. For the accuracy 0.07 (the double nearest to it) the bar's
  width \<^verbatim>\<open>accuracy * 100\<close> is the double 7.000000000000001 and not \<open>100 * a\<close>. For
  the accuracy 0.0075 (the double nearest to it, which is below it) the product is the
  double 0.75, and the label reads 0.8 where \<open>100 * a\<close> to one decimal place is 0.7.
\<close>

theorem accuracy_rendering_not_exact:
  "is_double (1261007895663739, - 54) \<and> 0 \<le> val (1261007895663739, - 54)
   \<and> val (1261007895663739, - 54) \<le> 1
   \<and> val (snd (getAccuracyBar (1261007895663739, - 54))) = 7 + 1 / 2 ^ 50
   \<and> val (snd (getAccuracyBar (1261007895663739, - 54))) \<noteq> 100 * val (1261007895663739, - 54)
   \<and> is_double (1080863910568919, - 57) \<and> 0 \<le> val (1080863910568919, - 57)
   \<and> val (1080863910568919, - 57) \<le> 1
   \<and> val (percentage (1080863910568919, - 57)) = 3 / 4
   \<and> val (percentage (1080863910568919, - 57)) \<noteq> 100 * val (1080863910568919, - 57)
   \<and> accuracy_label (1080863910568919, - 57) = ''0.8%''
   \<and> \<lfloor>100 * val (1080863910568919, - 57) * 10 + 1 / 2\<rfloor> = 7"
proof -
  have g: "snd (getAccuracyBar (1261007895663739, - 54)) = percentage (1261007895663739, - 54)"
    by (simp add: getAccuracyBar_def Let_def)
  have l: "accuracy_label (1080863910568919, - 57) = toFixed1 (percentage (1080863910568919, - 57)) @ ''%''"
    by (simp add: accuracy_label_def)
  show ?thesis
    unfolding g l percentage_0075 percentage_007
    by (simp add: val_def tenths_def toFixed1_def is_double_def power_int_minus floor_eq_iff)
qed

lemma round_shift_error: "2 * \<bar>round_shift m k * 2 ^ k - m\<bar> \<le> 2 ^ k"
proof -
  define q where "q = m div 2 ^ k"
  define r where "r = m mod 2 ^ k"
  have m: "m = q * 2 ^ k + r" unfolding q_def r_def by (rule div_mult_mod_eq[symmetric])
  have r: "0 \<le> r" "r < 2 ^ k" by (simp_all add: r_def)
  have rs: "round_shift m k =
      (if 2 * r < 2 ^ k then q else if 2 ^ k < 2 * r then q + 1 else if even q then q else q + 1)"
    by (simp add: round_shift_def Let_def q_def r_def)
  show ?thesis
    unfolding rs using r by (auto simp: m algebra_simps)
qed

lemma val_percentage:
  "val (percentage a) = val (round_double (25 * fst a) (snd a + 2))"
  by (simp add: percentage_def js_times_def hundred_def mult.commute)

lemma hundred_val: "of_int (25 * m) * (2::rat) powi (e + 2) = 100 * (of_int m * 2 powi e)"
  by (simp add: power_int_add)

lemma percentage_range:
  assumes "0 \<le> val a" "val a \<le> 1"
  shows "0 \<le> val (percentage a) \<and> val (percentage a) \<le> 100"
proof -
  have "(0::rat) < 2 powi snd a" by simp
  then have "(0::rat) \<le> of_int (fst a)" using assms(1) unfolding val_def
    by (simp only: zero_le_mult_iff) linarith
  then have m: "0 \<le> 25 * fst a" by simp
  have "of_int (25 * fst a) * (2::rat) powi (snd a + 2) \<le> of_int 25 * 2 powi 2"
    unfolding hundred_val using assms(2) by (simp add: val_def)
  from round_double_mono[OF m this]
  have "val (percentage a) \<le> val (round_double 25 2)" by (simp only: val_percentage)
  moreover have "bitlen 25 = int (Suc 4)" by (rule bitlen_eqI) simp_all
  then have "val (round_double 25 2) = 100"
    by (simp add: round_double_def round_shift_def val_def Let_def)
  ultimately show ?thesis using val_nonneg[OF m] by (simp add: val_percentage)
qed

lemma percentage_mono:
  assumes "0 \<le> val a" "val a \<le> val b"
  shows "val (percentage a) \<le> val (percentage b)"
proof -
  have "(0::rat) < 2 powi snd a" by simp
  then have "(0::rat) \<le> of_int (fst a)" using assms(1) unfolding val_def
    by (simp only: zero_le_mult_iff) linarith
  then have m: "0 \<le> 25 * fst a" by simp
  have "of_int (25 * fst a) * (2::rat) powi (snd a + 2) \<le> of_int (25 * fst b) * 2 powi (snd b + 2)"
    unfolding hundred_val using assms(2) by (simp add: val_def)
  from round_double_mono[OF m this] show ?thesis by (simp only: val_percentage)
qed

lemma tenths_mono: "0 \<le> val x \<Longrightarrow> val x \<le> val y \<Longrightarrow> tenths x \<le> tenths y"
  unfolding tenths_def by (intro floor_mono) simp

lemma percentage_error:
  assumes "is_double a" "0 \<le> val a" "val a \<le> 1"
  shows "\<bar>val (percentage a) - 100 * val a\<bar> \<le> 2 powi (- 47)"
proof -
  define M where "M = 25 * fst a"
  define E where "E = snd a + 2"
  define k where "k = nat (max (bitlen \<bar>M\<bar> - 53) (- 1074 - E))"
  have "(0::rat) < 2 powi snd a" by simp
  then have "(0::rat) \<le> of_int (fst a)" using assms(2) unfolding val_def
    by (simp only: zero_le_mult_iff) linarith
  then have M0: "0 \<le> M" by (simp add: M_def)
  have x: "100 * val a = of_int M * 2 powi E"
    unfolding M_def E_def val_def by (rule hundred_val[symmetric])
  have v: "val (percentage a) = of_int (round_shift M k) * 2 powi (E + int k)"
    unfolding val_percentage M_def[symmetric] E_def[symmetric] k_def val_round_double ..
  have pk: "(2::rat) powi (E + int k) = of_int (2 ^ k) * 2 powi E"
    by (simp add: power_int_add)
  have d: "val (percentage a) - 100 * val a = of_int (round_shift M k * 2 ^ k - M) * 2 powi E"
    unfolding v x pk by (simp add: algebra_simps)
  have "\<bar>val (percentage a) - 100 * val a\<bar> = of_int \<bar>round_shift M k * 2 ^ k - M\<bar> * 2 powi E"
    unfolding d by (simp add: abs_mult)
  then have a2: "2 * \<bar>val (percentage a) - 100 * val a\<bar>
       = of_int (2 * \<bar>round_shift M k * 2 ^ k - M\<bar>) * 2 powi E" by simp
  have "(of_int (2 * \<bar>round_shift M k * 2 ^ k - M\<bar>) :: rat) \<le> of_int (2 ^ k)"
    using round_shift_error[of M k] by (simp only: of_int_le_iff)
  then have "2 * \<bar>val (percentage a) - 100 * val a\<bar> \<le> of_int (2 ^ k) * 2 powi E"
    unfolding a2 by (intro mult_right_mono) simp_all
  then have b: "2 * \<bar>val (percentage a) - 100 * val a\<bar> \<le> 2 powi (E + int k)"
    unfolding pk .
  show ?thesis
  proof (cases "k = 0")
    case True
    have "round_shift M 0 * 2 ^ 0 - M = 0" using round_shift_exact[of M 0] by simp
    then have "val (percentage a) - 100 * val a = 0" unfolding d True by simp
    then show ?thesis by simp
  next
    case False
    have "- 1074 - E \<le> 0" using assms(1) by (simp add: is_double_def E_def)
    then have kb: "int k = bitlen \<bar>M\<bar> - 53" using False unfolding k_def by linarith
    then have Mp: "0 < M" using M0 False by (cases "M = 0") auto
    have bl: "bitlen M = int k + 53" using kb Mp by simp
    have "2 ^ nat (bitlen M - 1) \<le> M" using Mp by (rule bitlen_lower)
    moreover have "nat (bitlen M - 1) = k + 52" using bl by simp
    ultimately have "2 ^ (k + 52) \<le> M" by simp
    then have "(of_int (2 ^ (k + 52)) :: rat) \<le> of_int M" by (simp only: of_int_le_iff)
    then have "(of_int (2 ^ (k + 52)) :: rat) * 2 powi E \<le> of_int M * 2 powi E"
      by (intro mult_right_mono) simp_all
    also have "\<dots> \<le> 100" using assms(3) x by simp
    also have "\<dots> < (2::rat) powi 7" by simp
    finally have lt: "(of_int (2 ^ (k + 52)) :: rat) * 2 powi E < 2 powi 7" .
    have "(of_int (2 ^ (k + 52)) :: rat) * 2 powi E = 2 powi (E + int (k + 52))"
      using powi_shift[of 1 "k + 52" "E + int (k + 52)"] by simp
    then have "(2::rat) powi (E + int (k + 52)) < 2 powi 7" using lt by simp
    then have "E + int (k + 52) < 7" by (rule power_int_le_imp_less_exp[rotated]) simp_all
    then have "E + int k \<le> - 46" by simp
    then have "(2::rat) powi (E + int k) \<le> 2 powi (- 46)"
      by (intro power_int_increasing) simp_all
    then have "2 * \<bar>val (percentage a) - 100 * val a\<bar> \<le> 2 powi (- 46)" using b by linarith
    moreover have "(2::rat) powi (- 46) = 2 * 2 powi (- 47)" by (simp add: power_int_minus)
    ultimately have "2 * \<bar>val (percentage a) - 100 * val a\<bar> \<le> 2 * 2 powi (- 47)"
      by (simp only:)
    then show ?thesis by (simp only: mult_le_cancel_left_pos zero_less_numeral)
  qed
qed

text \<open>
  Claim C7, as amended. For an accuracy \<open>a\<close> that is a double in \<open>[0, 1]\<close>, the bar's
  width is the double product \<^verbatim>\<open>accuracy * 100\<close>; it lies in \<open>[0, 100]\<close> and
  differs from \<open>100 * a\<close> by at most \<open>2 ^ - 47\<close>. The product and the label's number
  (the product to one decimal place) never invert the order of two accuracies.
\<close>

theorem accuracy_rendering:
  "is_double a \<and> 0 \<le> val a \<and> val a \<le> 1 \<longrightarrow>
     snd (getAccuracyBar a) = percentage a
     \<and> accuracy_label a = toFixed1 (percentage a) @ ''%''
     \<and> 0 \<le> val (percentage a) \<and> val (percentage a) \<le> 100
     \<and> \<bar>val (percentage a) - 100 * val a\<bar> \<le> 2 powi (- 47)
     \<and> (val a \<le> val b \<longrightarrow>
          val (percentage a) \<le> val (percentage b)
          \<and> tenths (percentage a) \<le> tenths (percentage b))"
proof (intro impI conjI)
  assume h: "is_double a \<and> 0 \<le> val a \<and> val a \<le> 1"
  show "snd (getAccuracyBar a) = percentage a"
    by (simp add: getAccuracyBar_def Let_def)
  show "accuracy_label a = toFixed1 (percentage a) @ ''%''"
    by (simp add: accuracy_label_def)
  show "0 \<le> val (percentage a)" "val (percentage a) \<le> 100"
    using percentage_range[of a] h by simp_all
  show "\<bar>val (percentage a) - 100 * val a\<bar> \<le> 2 powi (- 47)"
    using percentage_error[of a] h by simp
  assume le: "val a \<le> val b"
  show m: "val (percentage a) \<le> val (percentage b)"
    using percentage_mono[of a b] h le by simp
  show "tenths (percentage a) \<le> tenths (percentage b)"
    using tenths_mono[OF _ m] percentage_range[of a] h by simp
qed

theorem accuracy_rendering_witness:
  "val (percentage (1, - 1)) = 50 \<and> tenths (percentage (1, - 1)) = 500
   \<and> toFixed1 (percentage (1, - 1)) = ''50.0''
   \<and> val (percentage (1, 0)) = 100 \<and> tenths (percentage (1, 0)) = 1000
   \<and> tenths (percentage (1, - 1)) \<le> tenths (percentage (1, 0))"
proof -
  have b: "bitlen 25 = int (Suc 4)" by (rule bitlen_eqI) simp_all
  have p: "percentage (1, - 1) = (25, 1)" "percentage (1, 0) = (25, 2)"
    by (simp_all add: percentage_def js_times_def hundred_def round_double_def round_shift_def b)
  have t: "tenths (25, 1) = 500" "tenths (25, 2) = 1000"
    by (simp_all add: val_def tenths_def floor_eq_iff)
  have v: "val (percentage (1, - 1)) = 50" "val (percentage (1, 0)) = 100"
      "tenths (percentage (1, - 1)) = 500" "tenths (percentage (1, 0)) = 1000"
      "toFixed1 (percentage (1, - 1)) = ''50.0''"
    unfolding p by (simp_all add: val_def t toFixed1_def)
  have "is_double (1, - 1) \<and> 0 \<le> val (1, - 1) \<and> val (1, - 1) \<le> 1"
       "val (1, - 1) \<le> val (1, 0)"
    by (simp_all add: is_double_def val_def)
  with accuracy_rendering[of "(1, - 1)" "(1, 0)"] v show ?thesis by simp
qed

end
